theory Spec2Isabelle
  imports Complex_Main "HOL-Library.Word"
begin

section \<open>Numbers of the program\<close>

text \<open>
  This theory embeds the domain-colouring plotter of \<^verbatim>\<open>main.cpp\<close>, the file that the build
  compiles: the colour conversion \<^verbatim>\<open>hsv2rgb\<close> over an \<^verbatim>\<open>HSVColor\<close> of clamped components,
  the canvas \<^verbatim>\<open>RGBCanvas\<close>, the sampler \<^verbatim>\<open>color\<close> and the rasterizer \<^verbatim>\<open>paint_complex\<close>.
  An earlier snapshot of the same program has the same canvas and the same conversion on three
  plain \<^verbatim>\<open>double\<close>s; it differs where noted: its \<^verbatim>\<open>angle\<close> returns the bare fraction of a
  turn, and its \<^verbatim>\<open>paint_complex\<close> takes the range itself as the extent.

  The plotter computes with C++ \<^verbatim>\<open>double\<close>, \<^verbatim>\<open>int\<close>, \<^verbatim>\<open>size_t\<close> and \<^verbatim>\<open>uint8_t\<close>.
  An \<^verbatim>\<open>int\<close> is a 32-bit word read as two's complement, \<^verbatim>\<open>size_t\<close> a 64-bit word and
  \<^verbatim>\<open>uint8_t\<close> an 8-bit word. What C++ leaves undefined (signed overflow, a conversion from
  floating point whose truncated value does not fit, an access outside a vector) is a result
  of its own, so that a function of the model returns \<open>Inl\<close> where the program has no
  defined behaviour and \<open>Inr\<close> with its result otherwise.
\<close>

datatype undefined_behaviour = SignedOverflow | FloatToIntegral | OutOfBounds

type_synonym 'a result = "undefined_behaviour + 'a"

definition bind :: "'a result \<Rightarrow> ('a \<Rightarrow> 'b result) \<Rightarrow> 'b result" where
  "bind m k = (case m of Inl e \<Rightarrow> Inl e | Inr x \<Rightarrow> k x)"

subsection \<open>Rounding to \<^verbatim>\<open>double\<close>\<close>

text \<open>
  A \<^verbatim>\<open>double\<close> is an IEEE 754 binary64 number: a finite value \<open>m \<cdot> 2\<^sup>e\<close> with an integer
  \<open>\<bar>m\<bar> < 2\<^sup>5\<^sup>3\<close> and \<open>-1074 \<le> e \<le> 971\<close>, where zero has a sign, one of the two infinities, or
  NaN. The numbers around a real \<open>x\<close> are \<open>quantum x\<close> apart: \<open>2\<^sup>-\<^sup>5\<^sup>2\<close> times the power of two at or
  below \<open>\<bar>x\<bar>\<close>, and \<open>2\<^sup>-\<^sup>1\<^sup>0\<^sup>7\<^sup>4\<close> for the subnormal numbers. \<open>rnd\<close> rounds a real to the nearest
  of them, a tie to the one with the even significand, as the default rounding mode does.
\<close>

definition is_double :: "real \<Rightarrow> bool" where
  "is_double x \<longleftrightarrow>
     (\<exists>m e :: int. x = of_int m * 2 powi e \<and> \<bar>m\<bar> < 2 ^ 53 \<and> - 1074 \<le> e \<and> e \<le> 971)"

definition binade :: "real \<Rightarrow> int" where
  "binade x = max \<lfloor>log 2 \<bar>x\<bar>\<rfloor> (- 1022)"

definition quantum :: "real \<Rightarrow> real" where
  "quantum x = 2 powi (binade x - 52)"

definition round_even :: "real \<Rightarrow> int" where
  "round_even y =
     (if y - of_int \<lfloor>y\<rfloor> < 1 / 2 then \<lfloor>y\<rfloor>
      else if 1 / 2 < y - of_int \<lfloor>y\<rfloor> then \<lfloor>y\<rfloor> + 1
      else if even \<lfloor>y\<rfloor> then \<lfloor>y\<rfloor> else \<lfloor>y\<rfloor> + 1)"

definition rnd :: "real \<Rightarrow> real" where
  "rnd x = of_int (round_even (x / quantum x)) * quantum x"

datatype double = Fin real | NZero | PInf | NInf | NaN

text \<open>
  \<open>Fin 0\<close> is the positive zero and \<open>NZero\<close> the negative one. \<open>fl x\<close> is the \<^verbatim>\<open>double\<close> that
  an operation delivers whose exact result is \<open>x\<close>, not zero: the rounded value, an infinity
  when the rounded value is beyond the largest \<^verbatim>\<open>double\<close>, and a zero of the sign of \<open>x\<close> when
  it rounds to zero. Every arithmetic operation rounds once: no fused multiply-add and no
  intermediate of higher precision.
\<close>

definition fl :: "real \<Rightarrow> double" where
  "fl x =
     (if 2 powi 1024 \<le> \<bar>rnd x\<bar> then (if 0 < x then PInf else NInf)
      else if rnd x = 0 then (if x < 0 then NZero else Fin 0)
      else Fin (rnd x))"

fun isnan :: "double \<Rightarrow> bool" where
  "isnan NaN = True"
| "isnan _ = False"

fun isinf :: "double \<Rightarrow> bool" where
  "isinf PInf = True"
| "isinf NInf = True"
| "isinf _ = False"

text \<open>The value of a finite number and the sign bit of a number.\<close>

fun val :: "double \<Rightarrow> real" where
  "val (Fin a) = a"
| "val _ = 0"

fun signbit :: "double \<Rightarrow> bool" where
  "signbit (Fin a) = (a < 0)"
| "signbit NZero = True"
| "signbit NInf = True"
| "signbit _ = False"

fun is_zero :: "double \<Rightarrow> bool" where
  "is_zero (Fin a) = (a = 0)"
| "is_zero NZero = True"
| "is_zero _ = False"

definition signed_zero :: "bool \<Rightarrow> double" where
  "signed_zero s = (if s then NZero else Fin 0)"

definition signed_inf :: "bool \<Rightarrow> double" where
  "signed_inf s = (if s then NInf else PInf)"

text \<open>
  The comparisons \<^verbatim>\<open>==\<close> and \<^verbatim>\<open><\<close>: false as soon as one side is NaN, and the two zeros
  are equal.
\<close>

definition d_eq :: "double \<Rightarrow> double \<Rightarrow> bool" where
  "d_eq a b =
     (if isnan a \<or> isnan b then False
      else if isinf a \<or> isinf b then a = b
      else val a = val b)"

definition d_lt :: "double \<Rightarrow> double \<Rightarrow> bool" where
  "d_lt a b =
     (if isnan a \<or> isnan b then False
      else if a = NInf then b \<noteq> NInf
      else if b = PInf then a \<noteq> PInf
      else if a = PInf \<or> b = NInf then False
      else val a < val b)"

fun d_neg :: "double \<Rightarrow> double" where
  "d_neg (Fin a) = (if a = 0 then NZero else Fin (- a))"
| "d_neg NZero = Fin 0"
| "d_neg PInf = NInf"
| "d_neg NInf = PInf"
| "d_neg NaN = NaN"

fun d_abs :: "double \<Rightarrow> double" where
  "d_abs (Fin a) = Fin \<bar>a\<bar>"
| "d_abs NZero = Fin 0"
| "d_abs PInf = PInf"
| "d_abs NInf = PInf"
| "d_abs NaN = NaN"

text \<open>
  Addition: infinities of opposite sign give NaN; an exact sum of zero is the positive zero
  unless both operands are the negative zero. \<^verbatim>\<open>a - b\<close> is \<^verbatim>\<open>a + (-b)\<close>.
\<close>

definition d_add :: "double \<Rightarrow> double \<Rightarrow> double" where
  "d_add a b =
     (if isnan a \<or> isnan b then NaN
      else if isinf a then (if isinf b \<and> a \<noteq> b then NaN else a)
      else if isinf b then b
      else if val a + val b = 0 then (if a = NZero \<and> b = NZero then NZero else Fin 0)
      else fl (val a + val b))"

definition d_sub :: "double \<Rightarrow> double \<Rightarrow> double" where
  "d_sub a b = d_add a (d_neg b)"

text \<open>
  Multiplication and division: the sign of the result is the exclusive or of the signs;
  infinity times zero, zero by zero and infinity by infinity are NaN; a finite number that is
  not zero, divided by zero, is an infinity.
\<close>

definition d_mul :: "double \<Rightarrow> double \<Rightarrow> double" where
  "d_mul a b =
     (if isnan a \<or> isnan b then NaN
      else if isinf a \<or> isinf b then
        (if is_zero a \<or> is_zero b then NaN else signed_inf (signbit a \<noteq> signbit b))
      else if val a * val b = 0 then signed_zero (signbit a \<noteq> signbit b)
      else fl (val a * val b))"

definition d_div :: "double \<Rightarrow> double \<Rightarrow> double" where
  "d_div a b =
     (if isnan a \<or> isnan b then NaN
      else if isinf a then (if isinf b then NaN else signed_inf (signbit a \<noteq> signbit b))
      else if isinf b then signed_zero (signbit a \<noteq> signbit b)
      else if val b = 0 then (if val a = 0 then NaN else signed_inf (signbit a \<noteq> signbit b))
      else if val a = 0 then signed_zero (signbit a \<noteq> signbit b)
      else fl (val a / val b))"

text \<open>
  \<^verbatim>\<open>floor\<close> and \<^verbatim>\<open>trunc\<close> of the C library give an integral value, still a \<^verbatim>\<open>double\<close>, and
  are exact; a zero result has the sign of the argument.
\<close>

definition trunc_int :: "real \<Rightarrow> int" where
  "trunc_int a = (if 0 \<le> a then \<lfloor>a\<rfloor> else \<lceil>a\<rceil>)"

fun d_floor :: "double \<Rightarrow> double" where
  "d_floor (Fin a) = Fin (of_int \<lfloor>a\<rfloor>)"
| "d_floor a = a"

fun d_trunc :: "double \<Rightarrow> double" where
  "d_trunc (Fin a) = (if a < 0 \<and> trunc_int a = 0 then NZero else Fin (of_int (trunc_int a)))"
| "d_trunc a = a"

text \<open>
  \<^verbatim>\<open>static_cast<int>\<close> and \<^verbatim>\<open>static_cast<unsigned char>\<close> of a \<^verbatim>\<open>double\<close> drop the
  fractional part; the behaviour is undefined when the truncated value is not a value of the
  destination type, as for NaN and the infinities. \<^verbatim>\<open>static_cast<double>\<close> of an \<^verbatim>\<open>int\<close>
  is exact.
\<close>

fun d2int :: "double \<Rightarrow> int result" where
  "d2int (Fin a) =
     (if - (2 ^ 31) \<le> trunc_int a \<and> trunc_int a < 2 ^ 31 then Inr (trunc_int a)
      else Inl FloatToIntegral)"
| "d2int NZero = Inr 0"
| "d2int _ = Inl FloatToIntegral"

fun d2uchar :: "double \<Rightarrow> 8 word result" where
  "d2uchar (Fin a) =
     (if 0 \<le> trunc_int a \<and> trunc_int a \<le> 255 then Inr (word_of_int (trunc_int a))
      else Inl FloatToIntegral)"
| "d2uchar NZero = Inr 0"
| "d2uchar _ = Inl FloatToIntegral"

definition int2d :: "int \<Rightarrow> double" where
  "int2d i = Fin (of_int i)"

section \<open>Colours\<close>

text \<open>
  \<^verbatim>\<open>domain_value<T, Min, Max>\<close> holds a value clamped by \<^verbatim>\<open>std::clamp\<close> at construction
  and at assignment: \<^verbatim>\<open>(v < Min) ? Min : (Max < v) ? Max : v\<close>, which hands NaN through.
  \<^verbatim>\<open>norm\<close> is the domain \<open>[0, 1]\<close> and \<^verbatim>\<open>degree\<close> the domain \<open>[0, 360]\<close>.
\<close>

definition clamped :: "real \<Rightarrow> real \<Rightarrow> double \<Rightarrow> double" where
  "clamped lo hi v =
     (if d_lt v (Fin lo) then Fin lo else if d_lt (Fin hi) v then Fin hi else v)"

definition norm_value :: "double \<Rightarrow> double" where
  "norm_value = clamped 0 1"

definition degree :: "double \<Rightarrow> double" where
  "degree = clamped 0 360"

record RGBColor =
  red :: "8 word"
  green :: "8 word"
  blue :: "8 word"

record HSVColor =
  hue :: double
  saturation :: double
  "value" :: double

text \<open>
  The aggregate initialisation \<^verbatim>\<open>HSVColor { h, s, v }\<close> converts each \<^verbatim>\<open>double\<close> to its
  domain type, which clamps it.
\<close>

definition HSVColor_init :: "double \<Rightarrow> double \<Rightarrow> double \<Rightarrow> HSVColor" where
  "HSVColor_init h s v = \<lparr>hue = degree h, saturation = norm_value s, value = norm_value v\<rparr>"

subsection \<open>\<^verbatim>\<open>hsv2rgb\<close>\<close>

text \<open>
  The hue after the first \<^verbatim>\<open>if\<close> of the chromatic branch: 360 becomes 0, any other hue is
  divided by 60. Both are assignments to a \<^verbatim>\<open>degree\<close>, hence clamped again.
\<close>

definition sector_hue :: "HSVColor \<Rightarrow> double" where
  "sector_hue hsv =
     (if d_eq (hue hsv) (Fin 360) then degree (Fin 0)
      else degree (d_div (hue hsv) (Fin 60)))"

text \<open>\<^verbatim>\<open>i = static_cast<int>(trunc(hsv.hue()))\<close>\<close>

definition sector_index :: "HSVColor \<Rightarrow> int result" where
  "sector_index hsv = d2int (d_trunc (sector_hue hsv))"

text \<open>The labels of the \<^verbatim>\<open>switch (i)\<close> and the one that control reaches.\<close>

datatype switch_label = Case0 | Case1 | Case2 | Case3 | Case4 | Default

definition switch_on :: "int \<Rightarrow> switch_label" where
  "switch_on i =
     (if i = 0 then Case0 else if i = 1 then Case1 else if i = 2 then Case2
      else if i = 3 then Case3 else if i = 4 then Case4 else Default)"

text \<open>The assignments to \<^verbatim>\<open>r\<close>, \<^verbatim>\<open>g\<close>, \<^verbatim>\<open>b\<close> under each label.\<close>

fun switch_body :: "switch_label \<Rightarrow> double \<Rightarrow> double \<Rightarrow> double \<Rightarrow> double
    \<Rightarrow> double \<times> double \<times> double" where
  "switch_body Case0 v p q t = (v, t, p)"
| "switch_body Case1 v p q t = (q, v, p)"
| "switch_body Case2 v p q t = (p, v, t)"
| "switch_body Case3 v p q t = (p, q, v)"
| "switch_body Case4 v p q t = (t, p, v)"
| "switch_body Default v p q t = (v, p, q)"

text \<open>The two branches of \<^verbatim>\<open>if (hsv.saturation() == 0)\<close>, each giving \<open>(r, g, b)\<close>.\<close>

definition achromatic :: "HSVColor \<Rightarrow> (double \<times> double \<times> double) result" where
  "achromatic hsv = Inr (value hsv, value hsv, value hsv)"

definition chromatic :: "HSVColor \<Rightarrow> (double \<times> double \<times> double) result" where
  "chromatic hsv =
     bind (sector_index hsv) (\<lambda>i.
       let h = sector_hue hsv;
           f = d_sub h (int2d i);
           p = d_mul (value hsv) (d_sub (Fin 1) (saturation hsv));
           q = d_mul (value hsv) (d_sub (Fin 1) (d_mul (saturation hsv) f));
           t = d_mul (value hsv) (d_sub (Fin 1) (d_mul (saturation hsv) (d_sub (Fin 1) f)))
       in Inr (switch_body (switch_on i) (value hsv) p q t))"

text \<open>The \<^verbatim>\<open>return\<close>: each channel times 255, converted to \<^verbatim>\<open>unsigned char\<close>.\<close>

definition to_RGBColor :: "double \<times> double \<times> double \<Rightarrow> RGBColor result" where
  "to_RGBColor rgb =
     (case rgb of (r, g, b) \<Rightarrow>
        bind (d2uchar (d_mul r (Fin 255))) (\<lambda>r'.
        bind (d2uchar (d_mul g (Fin 255))) (\<lambda>g'.
        bind (d2uchar (d_mul b (Fin 255))) (\<lambda>b'.
          Inr \<lparr>red = r', green = g', blue = b'\<rparr>))))"

definition hsv2rgb :: "HSVColor \<Rightarrow> RGBColor result" where
  "hsv2rgb hsv =
     bind (if d_eq (saturation hsv) (Fin 0) then achromatic hsv else chromatic hsv)
       to_RGBColor"

section \<open>The canvas\<close>

record ImageSize =
  width :: "32 word"
  height :: "32 word"

text \<open>\<^verbatim>\<open>static_cast<size_t>(width) * static_cast<size_t>(height)\<close>\<close>

definition area :: "ImageSize \<Rightarrow> 64 word" where
  "area sz = scast (width sz) * scast (height sz)"

record Point =
  p_x :: "32 word"
  p_y :: "32 word"

record RGBCanvas =
  csize :: ImageSize
  pixels :: "8 word list"

text \<open>\<^verbatim>\<open>vector::resize\<close> (new elements are zero) and \<^verbatim>\<open>std::fill\<close> over the whole vector.\<close>

definition resize :: "8 word list \<Rightarrow> nat \<Rightarrow> 8 word list" where
  "resize xs n = take n xs @ replicate (n - length xs) 0"

definition fill :: "8 word list \<Rightarrow> 8 word \<Rightarrow> 8 word list" where
  "fill xs v = map (\<lambda>_. v) xs"

text \<open>
  The constructor: the vector starts empty, is resized to \<open>area * 3\<close> and filled with \<open>0xFF\<close>.
  A failed allocation ends the program and is not modelled.
\<close>

definition RGBCanvas_init :: "ImageSize \<Rightarrow> RGBCanvas" where
  "RGBCanvas_init sz = \<lparr>csize = sz, pixels = fill (resize [] (unat (area sz * 3))) 0xFF\<rparr>"

text \<open>Multiplication and addition of two \<^verbatim>\<open>int\<close>: undefined when the result is not an \<^verbatim>\<open>int\<close>.\<close>

definition int_mul :: "32 word \<Rightarrow> 32 word \<Rightarrow> 32 word result" where
  "int_mul a b =
     (if - (2 ^ 31) \<le> sint a * sint b \<and> sint a * sint b < 2 ^ 31 then Inr (a * b)
      else Inl SignedOverflow)"

definition int_add :: "32 word \<Rightarrow> 32 word \<Rightarrow> 32 word result" where
  "int_add a b =
     (if - (2 ^ 31) \<le> sint a + sint b \<and> sint a + sint b < 2 ^ 31 then Inr (a + b)
      else Inl SignedOverflow)"

text \<open>
  \<^verbatim>\<open>auto* pixel = &pixels[i]; pixel[0] = ...; pixel[1] = ...; pixel[2] = ...\<close>: the index is
  converted to \<^verbatim>\<open>size_t\<close>, and the three elements have to exist.
\<close>

definition store_pixel :: "8 word list \<Rightarrow> 32 word \<Rightarrow> RGBColor \<Rightarrow> 8 word list result" where
  "store_pixel ps i color =
     (let n = unat (scast i :: 64 word)
      in if n + 2 < length ps
         then Inr (ps[n := red color, n + 1 := green color, n + 2 := blue color])
         else Inl OutOfBounds)"

definition "write" :: "RGBCanvas \<Rightarrow> Point \<Rightarrow> RGBColor \<Rightarrow> RGBCanvas result" where
  "write canvas p color =
     (if \<not> (0 \<le> sint (p_x p) \<and> sint (p_x p) < sint (width (csize canvas))
            \<and> 0 \<le> sint (p_y p) \<and> sint (p_y p) < sint (height (csize canvas)))
      then Inr canvas
      else
        bind (int_mul (p_y p) (width (csize canvas))) (\<lambda>a.
        bind (int_mul a 3) (\<lambda>b.
        bind (int_mul (p_x p) 3) (\<lambda>c.
        bind (int_add b c) (\<lambda>i.
        bind (store_pixel (pixels canvas) i color) (\<lambda>ps.
          Inr (canvas\<lparr>pixels := ps\<rparr>)))))))"

section \<open>The sampler\<close>

subsection \<open>The mathematical library\<close>

text \<open>
  \<^verbatim>\<open>sin\<close>, \<^verbatim>\<open>atan2\<close>, \<^verbatim>\<open>pow\<close>, \<^verbatim>\<open>sqrt\<close>, \<^verbatim>\<open>floor\<close>, \<^verbatim>\<open>abs\<close> and \<^verbatim>\<open>exp\<close> of a complex
  number are not code of the program. The square root is the correctly rounded one of
  IEEE 754. The other functions are correctly rounded by no standard: on the arguments that
  Annex F of the C standard lists (zeros, infinities, NaN, domain errors) they return what the
  annex says, and on every other argument what the library \<open>m\<close> returns, about which nothing
  is assumed. A \<^verbatim>\<open>complex<double>\<close> is its real and its imaginary part.
\<close>

type_synonym dcomplex = "double \<times> double"

record libm =
  lm_sin :: "real \<Rightarrow> double"
  lm_atan2 :: "real \<Rightarrow> real \<Rightarrow> double"
  lm_pow :: "real \<Rightarrow> real \<Rightarrow> double"
  lm_hypot :: "real \<Rightarrow> real \<Rightarrow> double"
  lm_cexp :: "dcomplex \<Rightarrow> dcomplex"

text \<open>
  \<^verbatim>\<open>M_PI\<close> is the \<^verbatim>\<open>double\<close> nearest to \<open>\<pi>\<close>, \<open>3.141592653589793115997963\<dots>\<close>, and the literal
  \<^verbatim>\<open>0.1\<close> of \<^verbatim>\<open>threshold\<close> the \<^verbatim>\<open>double\<close> nearest to one tenth.
\<close>

definition M_PI :: real where
  "M_PI = 884279719003555 / 2 ^ 48"

definition threshold :: real where
  "threshold = 3602879701896397 / 2 ^ 55"

fun d_sqrt :: "double \<Rightarrow> double" where
  "d_sqrt (Fin a) = (if a < 0 then NaN else if a = 0 then Fin 0 else fl (sqrt a))"
| "d_sqrt NZero = NZero"
| "d_sqrt PInf = PInf"
| "d_sqrt _ = NaN"

fun d_sin :: "libm \<Rightarrow> double \<Rightarrow> double" where
  "d_sin m (Fin a) = (if a = 0 then Fin 0 else lm_sin m a)"
| "d_sin m NZero = NZero"
| "d_sin m _ = NaN"

text \<open>
  \<^verbatim>\<open>atan2(y, x)\<close>: the multiples of \<open>\<pi>/4\<close> that the annex names are those of \<^verbatim>\<open>M_PI\<close>, which
  are \<^verbatim>\<open>double\<close>s and the nearest ones.
\<close>

definition with_sign :: "bool \<Rightarrow> real \<Rightarrow> double" where
  "with_sign s a = Fin (if s then - a else a)"

definition d_atan2 :: "libm \<Rightarrow> double \<Rightarrow> double \<Rightarrow> double" where
  "d_atan2 m y x =
     (if isnan y \<or> isnan x then NaN
      else if isinf y then
        (if x = PInf then with_sign (signbit y) (M_PI / 4)
         else if x = NInf then with_sign (signbit y) (3 * M_PI / 4)
         else with_sign (signbit y) (M_PI / 2))
      else if x = PInf then signed_zero (signbit y)
      else if x = NInf then with_sign (signbit y) M_PI
      else if val y = 0 then
        (if signbit x then with_sign (signbit y) M_PI else signed_zero (signbit y))
      else if val x = 0 then with_sign (signbit y) (M_PI / 2)
      else lm_atan2 m (val y) (val x))"

text \<open>
  \<^verbatim>\<open>pow(x, y)\<close> for an exponent \<open>y\<close> that is finite, positive and not an integer, as
  \<^verbatim>\<open>threshold\<close> is: a negative finite base is a domain error and gives NaN.
\<close>

fun d_pow :: "libm \<Rightarrow> double \<Rightarrow> real \<Rightarrow> double" where
  "d_pow m (Fin a) y =
     (if a < 0 then NaN else if a = 0 then Fin 0 else if a = 1 then Fin 1 else lm_pow m a y)"
| "d_pow m NZero y = Fin 0"
| "d_pow m PInf y = PInf"
| "d_pow m NInf y = PInf"
| "d_pow m NaN y = NaN"

text \<open>
  \<^verbatim>\<open>std::abs\<close> of a complex number is \<^verbatim>\<open>hypot\<close> of its parts: an infinite part wins over
  NaN, and with one part zero it is the absolute value of the other.
\<close>

fun c_abs :: "libm \<Rightarrow> dcomplex \<Rightarrow> double" where
  "c_abs m (re, im) =
     (if isinf re \<or> isinf im then PInf
      else if isnan re \<or> isnan im then NaN
      else if val im = 0 then d_abs re
      else if val re = 0 then d_abs im
      else lm_hypot m (val re) (val im))"

text \<open>
  A complex number times a \<^verbatim>\<open>double\<close> (both parts are scaled), the literal \<^verbatim>\<open>1i\<close>, and the
  complex exponential, which is the library's.
\<close>

fun c_scale :: "double \<Rightarrow> dcomplex \<Rightarrow> dcomplex" where
  "c_scale a (re, im) = (d_mul re a, d_mul im a)"

definition imaginary_unit :: dcomplex where
  "imaginary_unit = (Fin 0, Fin 1)"

definition c_exp :: "libm \<Rightarrow> dcomplex \<Rightarrow> dcomplex" where
  "c_exp m c = lm_cexp m c"

subsection \<open>The lambdas of \<^verbatim>\<open>color\<close>\<close>

text \<open>
  \<^verbatim>\<open>color\<close> refers to a function \<^verbatim>\<open>f\<close> that it does not declare; the model takes it, after
  the library, as an argument of every lambda that uses it.
\<close>

definition r :: "double \<Rightarrow> double \<Rightarrow> double" where
  "r x y = d_sqrt (d_add (d_mul x x) (d_mul y y))"

definition theta :: "libm \<Rightarrow> double \<Rightarrow> double \<Rightarrow> double" where
  "theta m x y = d_atan2 m y x"

definition z :: "libm \<Rightarrow> double \<Rightarrow> double \<Rightarrow> dcomplex" where
  "z m x y = c_scale (r x y) (c_exp m (c_scale (theta m x y) imaginary_unit))"

definition magnitude_shading ::
    "libm \<Rightarrow> (dcomplex \<Rightarrow> dcomplex) \<Rightarrow> double \<Rightarrow> double \<Rightarrow> double" where
  "magnitude_shading m f x y =
     d_add (Fin (1 / 2))
       (d_mul (Fin (1 / 2))
          (d_sub (c_abs m (f (z m x y))) (d_floor (c_abs m (f (z m x y))))))"

definition real_f :: "(dcomplex \<Rightarrow> dcomplex) \<Rightarrow> dcomplex \<Rightarrow> double" where
  "real_f f c = fst (f c)"

definition imaginary_f :: "(dcomplex \<Rightarrow> dcomplex) \<Rightarrow> dcomplex \<Rightarrow> double" where
  "imaginary_f f c = snd (f c)"

text \<open>The local \<^verbatim>\<open>value\<close> of the lambda \<^verbatim>\<open>gridlines\<close>, and the lambda.\<close>

definition gridlines_value ::
    "libm \<Rightarrow> (dcomplex \<Rightarrow> dcomplex) \<Rightarrow> double \<Rightarrow> double \<Rightarrow> double" where
  "gridlines_value m f x y =
     d_mul (d_abs (d_pow m (d_sin m (d_mul (real_f f (z m x y)) (Fin M_PI))) threshold))
       (d_pow m (d_abs (d_sin m (d_mul (imaginary_f f (z m x y)) (Fin M_PI)))) threshold)"

definition gridlines ::
    "libm \<Rightarrow> (dcomplex \<Rightarrow> dcomplex) \<Rightarrow> double \<Rightarrow> double \<Rightarrow> double" where
  "gridlines m f x y =
     (let v = gridlines_value m f x y
      in if isnan (d_abs v) \<or> isinf (d_abs v) then Fin 1 else v)"

text \<open>The local \<^verbatim>\<open>angleRadians\<close> of the lambda \<^verbatim>\<open>angle\<close>, and the lambda.\<close>

definition angleRadians :: "libm \<Rightarrow> double \<Rightarrow> double \<Rightarrow> double" where
  "angleRadians m x y =
     d_div (d_add (Fin M_PI) (d_atan2 m (d_neg y) (d_neg x))) (d_mul (Fin 2) (Fin M_PI))"

definition angle :: "libm \<Rightarrow> double \<Rightarrow> double \<Rightarrow> double" where
  "angle m x y = d_mul (angleRadians m x y) (d_div (Fin 180) (Fin M_PI))"

text \<open>The \<^verbatim>\<open>HSVColor\<close> that \<^verbatim>\<open>color\<close> builds, and \<^verbatim>\<open>color\<close> itself.\<close>

definition color_hsv ::
    "libm \<Rightarrow> (dcomplex \<Rightarrow> dcomplex) \<Rightarrow> double \<Rightarrow> double \<Rightarrow> HSVColor" where
  "color_hsv m f x y =
     HSVColor_init (angle m (real_f f (z m x y)) (imaginary_f f (z m x y)))
       (magnitude_shading m f x y)
       (gridlines m f x y)"

definition color ::
    "libm \<Rightarrow> (dcomplex \<Rightarrow> dcomplex) \<Rightarrow> double \<Rightarrow> double \<Rightarrow> RGBColor result" where
  "color m f x y = hsv2rgb (color_hsv m f x y)"

text \<open>
  A library to compute with where a concrete one is wanted: every function returns the
  correctly rounded value of the real function.
\<close>

definition atan2_real :: "real \<Rightarrow> real \<Rightarrow> real" where
  "atan2_real b a =
     (if 0 < a then arctan (b / a)
      else if a < 0 then (if 0 \<le> b then arctan (b / a) + pi else arctan (b / a) - pi)
      else if 0 < b then pi / 2 else if b < 0 then - (pi / 2) else 0)"

definition rounding_libm :: libm where
  "rounding_libm =
     \<lparr>lm_sin = (\<lambda>a. fl (sin a)),
      lm_atan2 = (\<lambda>b a. fl (atan2_real b a)),
      lm_pow = (\<lambda>a y. fl (a powr y)),
      lm_hypot = (\<lambda>a b. fl (sqrt (a * a + b * b))),
      lm_cexp = (\<lambda>c. (fl (exp (val (fst c)) * cos (val (snd c))),
                       fl (exp (val (fst c)) * sin (val (snd c)))))\<rparr>"

section \<open>The rasterizer\<close>

text \<open>
  A loop \<^verbatim>\<open>for (int i = 0; i < n; ++i)\<close> whose body leaves \<open>n\<close> alone runs the body for
  \<open>i = 0, \<dots>, n - 1\<close> in this order; it stops at the first undefined step.
\<close>

definition loop_values :: "32 word \<Rightarrow> 32 word list" where
  "loop_values n = map word_of_nat [0 ..< nat (sint n)]"

fun for_each :: "'i list \<Rightarrow> ('i \<Rightarrow> 's \<Rightarrow> 's result) \<Rightarrow> 's \<Rightarrow> 's result" where
  "for_each [] body s = Inr s"
| "for_each (i # is) body s = bind (body i s) (for_each is body)"

text \<open>
  The plane coordinate of column (or row) \<open>i\<close> of \<open>n\<close>:
  \<^verbatim>\<open>((static_cast<double>(i) / n) - 0.5) * extent\<close>.
\<close>

definition plane_coordinate :: "32 word \<Rightarrow> double \<Rightarrow> double \<Rightarrow> double" where
  "plane_coordinate i n extent = d_mul (d_sub (d_div (int2d (sint i)) n) (Fin (1 / 2))) extent"

definition paint_complex ::
    "RGBCanvas \<Rightarrow> double \<Rightarrow> double \<Rightarrow> (double \<Rightarrow> double \<Rightarrow> RGBColor result) \<Rightarrow> RGBCanvas result" where
  "paint_complex canvas xRange yRange colorizer =
     (let w = int2d (sint (width (csize canvas)));
          h = int2d (sint (height (csize canvas)));
          xExtent = d_mul xRange (Fin 2);
          yExtent = d_mul yRange (Fin 2)
      in for_each (loop_values (height (csize canvas)))
           (\<lambda>y. let yf = plane_coordinate y h yExtent
                in for_each (loop_values (width (csize canvas)))
                     (\<lambda>x cv. let xf = plane_coordinate x w xExtent
                             in bind (colorizer xf yf) (\<lambda>c. write cv \<lparr>p_x = x, p_y = y\<rparr> c)))
           canvas)"

section \<open>Notions for the proofs\<close>

text \<open>
  For a hue \<open>h\<close> between 0 and 360 the value of \<^const>\<open>sector_hue\<close> is the finite number
  \<open>sector_real h\<close>.
\<close>

definition sector_real :: "real \<Rightarrow> real" where
  "sector_real h = (if h = 360 then 0 else rnd (h / 60))"



section \<open>Properties of the rounding\<close>

text \<open>
  What the proofs need of \<^const>\<open>rnd\<close>: it is monotone with respect to the numbers of the
  format (a real below a \<^verbatim>\<open>double\<close> is rounded to a number below it, or to it), and it
  leaves a \<^verbatim>\<open>double\<close> alone.
\<close>

lemma quantum_pos: "0 < quantum x"
  by (simp add: quantum_def)

lemma round_even_of_int: "round_even (of_int n) = n"
  by (simp add: round_even_def)

lemma round_even_le:
  assumes "y \<le> of_int n" shows "round_even y \<le> n"
proof -
  have fl: "\<lfloor>y\<rfloor> \<le> n" using assms by (simp add: floor_le_iff)
  show ?thesis
  proof (cases "y = of_int \<lfloor>y\<rfloor>")
    case True
    then have "y - of_int \<lfloor>y\<rfloor> < 1 / 2" by simp
    then show ?thesis using fl by (simp add: round_even_def)
  next
    case False
    then have "of_int \<lfloor>y\<rfloor> < y" using of_int_floor_le [of y] by linarith
    then have "of_int \<lfloor>y\<rfloor> < (of_int n :: real)" using assms by linarith
    then have "\<lfloor>y\<rfloor> < n" by simp
    then show ?thesis by (simp add: round_even_def)
  qed
qed

lemma round_even_ge:
  assumes "of_int n \<le> y" shows "n \<le> round_even y"
proof -
  have "n \<le> \<lfloor>y\<rfloor>" using assms by (simp add: le_floor_iff)
  then show ?thesis by (simp add: round_even_def)
qed

lemma rnd_0: "rnd 0 = 0"
  by (simp add: rnd_def round_even_def)

lemma rnd_nonneg: "0 \<le> x \<Longrightarrow> 0 \<le> rnd x"
proof -
  assume "0 \<le> x"
  then have "of_int 0 \<le> x / quantum x" using quantum_pos [of x] by simp
  then have "0 \<le> round_even (x / quantum x)" by (rule round_even_ge)
  then show ?thesis using quantum_pos [of x] by (simp add: rnd_def)
qed

lemma rnd_le_grid:
  assumes "x \<le> of_int n * quantum x" shows "rnd x \<le> of_int n * quantum x"
proof -
  have "x / quantum x \<le> of_int n"
    using assms quantum_pos [of x] by (simp add: pos_divide_le_eq)
  then have "round_even (x / quantum x) \<le> n" by (rule round_even_le)
  then have "(of_int (round_even (x / quantum x)) :: real) \<le> of_int n" by simp
  then show ?thesis
    unfolding rnd_def using quantum_pos [of x] by (intro mult_right_mono) simp_all
qed

lemma rnd_ge_grid:
  assumes "of_int n * quantum x \<le> x" shows "of_int n * quantum x \<le> rnd x"
proof -
  have "of_int n \<le> x / quantum x"
    using assms quantum_pos [of x] by (simp add: pos_le_divide_eq)
  then have "n \<le> round_even (x / quantum x)" by (rule round_even_ge)
  then have "(of_int n :: real) \<le> of_int (round_even (x / quantum x))" by simp
  then show ?thesis
    unfolding rnd_def using quantum_pos [of x] by (intro mult_right_mono) simp_all
qed

text \<open>binade\<close>

lemma powr_powi: "2 powr (of_int k) = (2::real) powi k"
  by (simp add: powr_real_of_int')

lemma powr_powi_succ: "2 powr (of_int k + 1) = (2::real) powi (k + 1)"
  using powr_powi [of "k + 1"] by simp

lemma binade_ge: "- 1022 \<le> binade x"
  by (simp add: binade_def)

lemma binade_unclamped:
  assumes "x \<noteq> 0" and "binade x \<noteq> - 1022"
  shows "2 powi (binade x) \<le> \<bar>x\<bar>"
proof -
  have b: "binade x = \<lfloor>log 2 \<bar>x\<bar>\<rfloor>" using assms(2) by (simp add: binade_def max_def split: if_splits)
  have "0 < \<bar>x\<bar>" using assms(1) by simp
  then have "2 powr (of_int \<lfloor>log 2 \<bar>x\<bar>\<rfloor>) \<le> \<bar>x\<bar>"
    using floor_log_eq_powr_iff [of "\<bar>x\<bar>" 2 "\<lfloor>log 2 \<bar>x\<bar>\<rfloor>"] by simp
  then show ?thesis unfolding b by (simp add: powr_real_of_int')
qed

lemma less_binade_succ:
  assumes "x \<noteq> 0"
  shows "\<bar>x\<bar> < 2 powi (binade x + 1)"
proof -
  have "0 < \<bar>x\<bar>" using assms(1) by simp
  then have "\<bar>x\<bar> < 2 powr (of_int \<lfloor>log 2 \<bar>x\<bar>\<rfloor> + 1)"
    using floor_log_eq_powr_iff [of "\<bar>x\<bar>" 2 "\<lfloor>log 2 \<bar>x\<bar>\<rfloor>"] by simp
  then have "\<bar>x\<bar> < 2 powi (\<lfloor>log 2 \<bar>x\<bar>\<rfloor> + 1)" by (simp only: powr_powi_succ)
  also have "\<dots> \<le> 2 powi (binade x + 1)"
    by (intro power_int_increasing) (simp_all add: binade_def)
  finally show ?thesis .
qed

lemma binade_eq:
  assumes "2 powi e \<le> \<bar>x\<bar>" and "\<bar>x\<bar> < 2 powi (e + 1)" and "- 1022 \<le> e"
  shows "binade x = e"
proof -
  have "0 < \<bar>x\<bar>" using assms(1) zero_less_power_int [of "2::real" e] by linarith
  moreover have "2 powr (of_int e) \<le> \<bar>x\<bar>" "\<bar>x\<bar> < 2 powr (of_int e + 1)"
    using assms(1,2) by (simp_all only: powr_powi powr_powi_succ)
  ultimately have "\<lfloor>log 2 \<bar>x\<bar>\<rfloor> = e"
    using floor_log_eq_powr_iff [of "\<bar>x\<bar>" 2 e] by simp
  then show ?thesis using assms(3) by (simp add: binade_def)
qed

lemma powi_less_cancel:
  assumes "(2::real) powi a < 2 powi b" shows "a < b"
proof (rule ccontr)
  assume "\<not> a < b"
  then have "(2::real) powi b \<le> 2 powi a" by (intro power_int_increasing) simp_all
  then show False using assms by simp
qed

lemma powi_split:
  assumes "k \<le> e"
  shows "(2::real) powi e = 2 ^ nat (e - k) * 2 powi k"
proof -
  have "(2::real) powi ((e - k) + k) = 2 powi (e - k) * 2 powi k"
    by (rule power_int_add) simp
  moreover have "(2::real) powi (e - k) = 2 ^ nat (e - k)"
    using assms by (simp add: power_int_def)
  ultimately show ?thesis by simp
qed

lemma multiple_of_finer:
  fixes x :: real
  assumes "x = of_int m * 2 powi e" and "k \<le> e"
  shows "x = of_int (m * 2 ^ nat (e - k)) * 2 powi k"
proof -
  have "x = of_int m * (2 ^ nat (e - k) * 2 powi k)"
    unfolding assms(1) using powi_split [OF assms(2)] by simp
  then show ?thesis by simp
qed

lemma dyadic_binade:
  assumes "x = of_int m * 2 powi e" and "\<bar>m\<bar> < 2 ^ 53" and "- 1074 \<le> e" and "x \<noteq> 0"
  shows "binade x - 52 \<le> e"
proof (cases "binade x = - 1022")
  case True
  then show ?thesis using assms(3) by simp
next
  case False
  have "\<bar>x\<bar> = of_int \<bar>m\<bar> * 2 powi e"
    unfolding assms(1) by (simp add: abs_mult)
  also have "\<dots> < 2 ^ 53 * 2 powi e"
  proof -
    have "(of_int \<bar>m\<bar> :: real) < of_int (2 ^ 53)" using assms(2) by (simp only: of_int_less_iff)
    then show ?thesis by (intro mult_strict_right_mono) simp_all
  qed
  also have "\<dots> = 2 powi (53 + e)"
    using power_int_add [of "2::real" 53 e] by simp
  finally have "\<bar>x\<bar> < 2 powi (53 + e)" .
  moreover have "2 powi (binade x) \<le> \<bar>x\<bar>" using assms(4) False by (rule binade_unclamped)
  ultimately have "(2::real) powi (binade x) < 2 powi (53 + e)" by linarith
  then have "binade x < 53 + e" by (rule powi_less_cancel)
  then show ?thesis by simp
qed

lemma is_double_quantum:
  assumes "is_double x" and "x \<noteq> 0"
  shows "\<exists>n. x = of_int n * quantum x"
proof -
  obtain m e where me: "x = of_int m * 2 powi e" "\<bar>m\<bar> < 2 ^ 53" "- 1074 \<le> e"
    using assms(1) by (auto simp add: is_double_def)
  have "binade x - 52 \<le> e" using me assms(2) by (rule dyadic_binade)
  then have "x = of_int (m * 2 ^ nat (e - (binade x - 52))) * 2 powi (binade x - 52)"
    using me(1) by (rule multiple_of_finer [rotated])
  then show ?thesis unfolding quantum_def by blast
qed

lemma rnd_id:
  assumes "is_double x" shows "rnd x = x"
proof (cases "x = 0")
  case True
  then show ?thesis by (simp add: rnd_0)
next
  case False
  then obtain n where n: "x = of_int n * quantum x" using is_double_quantum [OF assms] by blast
  have "x / quantum x = of_int n"
    using quantum_pos [of x] by (subst n) simp
  then have "rnd x = of_int n * quantum x" by (simp add: rnd_def round_even_of_int)
  then show ?thesis using n by simp
qed

lemma binade_mono_pos:
  assumes "0 < x" "x \<le> y"
  shows "binade x \<le> binade y"
proof -
  have "log 2 x \<le> log 2 y" using assms by simp
  then have "\<lfloor>log 2 \<bar>x\<bar>\<rfloor> \<le> \<lfloor>log 2 \<bar>y\<bar>\<rfloor>" using assms by (simp add: floor_mono)
  then show ?thesis by (simp add: binade_def)
qed

lemma rnd_le:
  assumes "0 < x" and "x \<le> b" and "is_double b"
  shows "rnd x \<le> b"
proof -
  have bpos: "b \<noteq> 0" using assms(1,2) by simp
  obtain n where n: "b = of_int n * quantum b" using is_double_quantum [OF assms(3) bpos] by blast
  have "binade x - 52 \<le> binade b - 52" using binade_mono_pos [OF assms(1,2)] by simp
  then have "b = of_int (n * 2 ^ nat ((binade b - 52) - (binade x - 52))) * 2 powi (binade x - 52)"
    using n unfolding quantum_def by (rule multiple_of_finer [rotated])
  then obtain k where k: "b = of_int k * quantum x" unfolding quantum_def by blast
  show ?thesis using assms(2) unfolding k by (rule rnd_le_grid)
qed

lemma rnd_ge:
  assumes "0 < a" and "a \<le> x" and "is_double a"
  shows "a \<le> rnd x"
proof -
  have xpos: "0 < x" "x \<noteq> 0" using assms(1,2) by simp_all
  obtain m e where me: "a = of_int m * 2 powi e" "\<bar>m\<bar> < 2 ^ 53" "- 1074 \<le> e"
    using assms(3) by (auto simp add: is_double_def)
  show ?thesis
  proof (cases "binade x - 52 \<le> e")
    case True
    then have "a = of_int (m * 2 ^ nat (e - (binade x - 52))) * 2 powi (binade x - 52)"
      using me(1) by (rule multiple_of_finer [rotated])
    then obtain k where k: "a = of_int k * quantum x" unfolding quantum_def by blast
    show ?thesis using assms(2) unfolding k by (rule rnd_ge_grid)
  next
    case False
    then have e: "e + 53 \<le> binade x" by simp
    then have unclamped: "binade x \<noteq> - 1022" using me(3) by simp
    have "a \<le> \<bar>a\<bar>" by simp
    also have "\<bar>a\<bar> = of_int \<bar>m\<bar> * 2 powi e"
      unfolding me(1) by (simp add: abs_mult)
    also have "\<dots> \<le> 2 ^ 53 * 2 powi e"
    proof -
      have "(of_int \<bar>m\<bar> :: real) \<le> of_int (2 ^ 53)" using me(2) by (simp only: of_int_le_iff)
      then show ?thesis by (intro mult_right_mono) simp_all
    qed
    also have "\<dots> = 2 powi (53 + e)"
      using power_int_add [of "2::real" 53 e] by simp
    also have "\<dots> \<le> 2 powi (binade x)"
      using e by (intro power_int_increasing) simp_all
    finally have a: "a \<le> 2 powi (binade x)" .
    have grid: "(2::real) powi (binade x) = of_int (2 ^ 52) * quantum x"
      unfolding quantum_def using powi_split [of "binade x - 52" "binade x"] by simp
    have "2 powi (binade x) \<le> x"
      using binade_unclamped [OF xpos(2) unclamped] xpos(1) by simp
    then have "of_int (2 ^ 52) * quantum x \<le> rnd x"
      unfolding grid by (rule rnd_ge_grid)
    then show ?thesis using a grid by linarith
  qed
qed

lemma is_double_0: "is_double 0"
  unfolding is_double_def by (rule exI [of _ 0], rule exI [of _ 0]) simp

lemma is_double_of_int:
  assumes "\<bar>n\<bar> < 2 ^ 53" shows "is_double (of_int n)"
  unfolding is_double_def using assms by (intro exI [of _ n] exI [of _ 0]) simp

lemma is_double_dyadic:
  assumes "\<bar>m\<bar> < 2 ^ 53" and "- 1074 \<le> e" and "e \<le> 971"
  shows "is_double (of_int m * 2 powi e)"
  unfolding is_double_def using assms by blast

lemma is_double_minus: "is_double x \<Longrightarrow> is_double (- x)"
proof -
  assume "is_double x"
  then obtain m e where "x = of_int m * 2 powi e" "\<bar>m\<bar> < 2 ^ 53" "- 1074 \<le> e" "e \<le> 971"
    by (auto simp add: is_double_def)
  then have "- x = of_int (- m) * 2 powi e \<and> \<bar>- m\<bar> < 2 ^ 53 \<and> - 1074 \<le> e \<and> e \<le> 971" by simp
  then show ?thesis unfolding is_double_def by blast
qed

lemma is_double_examples:
  "is_double 1" "is_double 255" "is_double (1 / 2)" "is_double (6 - 1 / 2 ^ 50)" "is_double 64"
proof -
  show "is_double 1" using is_double_of_int [of 1] by simp
  show "is_double 255" using is_double_of_int [of 255] by simp
  show "is_double 64" using is_double_of_int [of 64] by simp
  show "is_double (1 / 2)" using is_double_dyadic [of 1 "- 1"] by (simp add: power_int_minus)
  show "is_double (6 - 1 / 2 ^ 50)"
    using is_double_dyadic [of "6 * 2 ^ 50 - 1" "- 50"] by (simp add: power_int_minus field_simps)
qed

lemma is_double_lt_max:
  assumes "is_double c" shows "\<bar>c\<bar> < 2 powi 1024"
proof -
  from assms obtain m e :: int where c: "c = of_int m * 2 powi e" and m: "\<bar>m\<bar> < 2 ^ 53"
    and e: "e \<le> 971"
    unfolding is_double_def by blast
  have p: "(2::real) powi e \<le> 2 powi 971" using e by (intro power_int_increasing) simp_all
  have m': "\<bar>real_of_int m\<bar> < 2 ^ 53" using m by (metis of_int_abs of_int_less_numeral_power_cancel_iff)
  have pos: "(0::real) < 2 powi e" by simp
  have "\<bar>c\<bar> = \<bar>real_of_int m\<bar> * 2 powi e" unfolding c by (simp add: abs_mult)
  also have "\<dots> < 2 ^ 53 * 2 powi e" using m' pos by (intro mult_strict_right_mono)
  also have "\<dots> \<le> 2 ^ 53 * 2 powi 971" using p by simp
  also have "\<dots> = 2 powi 1024"
    using power_int_add [of "2::real" 53 971] by simp
  finally show ?thesis .
qed

text \<open>
  An exact result between 0 and a \<^verbatim>\<open>double\<close> \<open>c\<close> is delivered as the finite number
  \<open>rnd x\<close>, again between 0 and \<open>c\<close>; an exact result that is a \<^verbatim>\<open>double\<close> is delivered
  as it is.
\<close>

lemma fl_nonneg:
  assumes "0 \<le> x" and "x \<le> c" and "is_double c"
  shows "fl x = Fin (rnd x)" and "0 \<le> rnd x" and "rnd x \<le> c"
proof -
  show n: "0 \<le> rnd x" using assms(1) by (rule rnd_nonneg)
  show le: "rnd x \<le> c"
  proof (cases "x = 0")
    case True then show ?thesis using assms by (simp add: rnd_0)
  next
    case False
    then show ?thesis using assms by (intro rnd_le) simp_all
  qed
  have "\<bar>rnd x\<bar> < 2 powi 1024" using n le is_double_lt_max [OF assms(3)] by linarith
  then show "fl x = Fin (rnd x)" using assms(1) unfolding fl_def by simp
qed

lemma fl_id:
  assumes "is_double x" and "x \<noteq> 0"
  shows "fl x = Fin x"
  using assms is_double_lt_max [OF assms(1)] unfolding fl_def by (simp add: rnd_id)

text \<open>The four operations on finite numbers that are not negative.\<close>

lemma d_add_nonneg:
  assumes "0 \<le> a" and "0 \<le> b" and "a + b \<le> c" and "is_double c"
  shows "d_add (Fin a) (Fin b) = Fin (rnd (a + b))"
  using fl_nonneg(1) [of "a + b" c] assms unfolding d_add_def by (simp add: rnd_0)

lemma d_mul_nonneg:
  assumes "0 \<le> a" and "0 \<le> b" and "a * b \<le> c" and "is_double c"
  shows "d_mul (Fin a) (Fin b) = Fin (rnd (a * b))"
proof (cases "a * b = 0")
  case True
  then show ?thesis using assms unfolding d_mul_def signed_zero_def by (auto simp: rnd_0)
next
  case False
  then show ?thesis using fl_nonneg(1) [of "a * b" c] assms unfolding d_mul_def by simp
qed

lemma d_sub_nonneg:
  assumes "b \<le> a" and "a - b \<le> c" and "is_double c"
  shows "d_sub (Fin a) (Fin b) = Fin (rnd (a - b))"
proof (cases "b = 0")
  case True
  then show ?thesis using fl_nonneg(1) [of a c] assms unfolding d_sub_def d_add_def
    by (simp add: rnd_0)
next
  case False
  then show ?thesis using fl_nonneg(1) [of "a - b" c] assms unfolding d_sub_def d_add_def
    by (simp add: rnd_0)
qed

lemma d_div_nonneg:
  assumes "0 \<le> a" and "0 < b" and "a / b \<le> c" and "is_double c"
  shows "d_div (Fin a) (Fin b) = Fin (rnd (a / b))"
proof (cases "a = 0")
  case True
  then show ?thesis using assms unfolding d_div_def signed_zero_def by (simp add: rnd_0)
next
  case False
  then show ?thesis using fl_nonneg(1) [of "a / b" c] assms unfolding d_div_def by simp
qed

lemma is_double_numerals:
  "is_double 6" "is_double 360" "is_double 2" "is_double 4" "is_double 3" "is_double 180"
  "is_double 60" "is_double 16" "is_double 32"
  using is_double_of_int [of 6] is_double_of_int [of 360] is_double_of_int [of 2]
    is_double_of_int [of 4] is_double_of_int [of 3] is_double_of_int [of 180]
    is_double_of_int [of 60] is_double_of_int [of 16] is_double_of_int [of 32]
  by simp_all

section \<open>Properties of the colour conversion\<close>

lemma d_eq_Fin [simp]: "d_eq (Fin a) (Fin b) \<longleftrightarrow> a = b"
  by (simp add: d_eq_def)

lemma d_lt_Fin [simp]: "d_lt (Fin a) (Fin b) \<longleftrightarrow> a < b"
  by (simp add: d_lt_def)

lemma clamped_Fin:
  "clamped lo hi (Fin a) = Fin (if a < lo then lo else if hi < a then hi else a)"
  by (simp add: clamped_def)

lemma norm_value_unit: "0 \<le> a \<Longrightarrow> a \<le> 1 \<Longrightarrow> norm_value (Fin a) = Fin a"
  by (simp add: norm_value_def clamped_Fin)

lemma degree_in_range: "0 \<le> a \<Longrightarrow> a \<le> 360 \<Longrightarrow> degree (Fin a) = Fin a"
  by (simp add: degree_def clamped_Fin)

lemma hue_init: "0 \<le> h \<Longrightarrow> h \<le> 360 \<Longrightarrow> hue (HSVColor_init (Fin h) s v) = Fin h"
  by (simp add: HSVColor_init_def degree_in_range)

lemma saturation_init:
  "0 \<le> a \<Longrightarrow> a \<le> 1 \<Longrightarrow> saturation (HSVColor_init h (Fin a) v) = Fin a"
  by (simp add: HSVColor_init_def norm_value_unit)

lemma value_init: "0 \<le> a \<Longrightarrow> a \<le> 1 \<Longrightarrow> value (HSVColor_init h s (Fin a)) = Fin a"
  by (simp add: HSVColor_init_def norm_value_unit)

lemma trunc_int_nonneg: "0 \<le> a \<Longrightarrow> trunc_int a = \<lfloor>a\<rfloor>"
  by (simp add: trunc_int_def)

lemma unit_mul:
  assumes "0 \<le> a" "a \<le> 1" "0 \<le> b" "b \<le> 1"
  shows "d_mul (Fin a) (Fin b) = Fin (rnd (a * b))" and "0 \<le> rnd (a * b)" and "rnd (a * b) \<le> 1"
proof -
  have ab: "0 \<le> a * b" "a * b \<le> 1" using assms by (simp_all add: mult_le_one)
  show "d_mul (Fin a) (Fin b) = Fin (rnd (a * b))"
    using assms ab by (intro d_mul_nonneg [where c = 1]) (simp_all add: is_double_examples)
  show "0 \<le> rnd (a * b)" "rnd (a * b) \<le> 1"
    using fl_nonneg(2,3) [OF ab is_double_examples(1)] by simp_all
qed

lemma unit_compl:
  assumes "0 \<le> a" "a \<le> 1"
  shows "d_sub (Fin 1) (Fin a) = Fin (rnd (1 - a))" and "0 \<le> rnd (1 - a)" and "rnd (1 - a) \<le> 1"
proof -
  have c: "0 \<le> 1 - a" "1 - a \<le> 1" using assms by simp_all
  show "d_sub (Fin 1) (Fin a) = Fin (rnd (1 - a))"
    using assms by (intro d_sub_nonneg [where c = 1]) (simp_all add: is_double_examples)
  show "0 \<le> rnd (1 - a)" "rnd (1 - a) \<le> 1"
    using fl_nonneg(2,3) [OF c is_double_examples(1)] by simp_all
qed

subsection \<open>The conversion to 8-bit channels\<close>

lemma d2uchar_channel:
  assumes "0 \<le> a" "a \<le> 1"
  shows "d2uchar (d_mul (Fin a) (Fin 255)) = Inr (word_of_int \<lfloor>rnd (a * 255)\<rfloor>)"
proof -
  have p: "0 \<le> a * 255" "a * 255 \<le> 255" using assms by simp_all
  have m: "d_mul (Fin a) (Fin 255) = Fin (rnd (a * 255))"
    using assms p by (intro d_mul_nonneg [where c = 255]) (simp_all add: is_double_examples)
  have b: "0 \<le> rnd (a * 255)" "rnd (a * 255) \<le> 255"
    using fl_nonneg(2,3) [OF p is_double_examples(2)] by simp_all
  then have "0 \<le> \<lfloor>rnd (a * 255)\<rfloor>" "\<lfloor>rnd (a * 255)\<rfloor> \<le> 255"
    by (simp_all add: floor_le_iff)
  then show ?thesis using b(1) by (simp add: m trunc_int_nonneg)
qed

lemma to_RGBColor_unit:
  assumes "0 \<le> a" "a \<le> 1" "0 \<le> b" "b \<le> 1" "0 \<le> c" "c \<le> 1"
  shows "to_RGBColor (Fin a, Fin b, Fin c) =
    Inr \<lparr>red = word_of_int \<lfloor>rnd (a * 255)\<rfloor>, green = word_of_int \<lfloor>rnd (b * 255)\<rfloor>,
         blue = word_of_int \<lfloor>rnd (c * 255)\<rfloor>\<rparr>"
  using assms by (simp add: to_RGBColor_def bind_def d2uchar_channel)

lemma achromatic_result:
  assumes "saturation hsv = Fin 0" and "value hsv = Fin v" and "0 \<le> v" and "v \<le> 1"
  shows "hsv2rgb hsv =
    Inr \<lparr>red = word_of_int \<lfloor>rnd (v * 255)\<rfloor>, green = word_of_int \<lfloor>rnd (v * 255)\<rfloor>,
         blue = word_of_int \<lfloor>rnd (v * 255)\<rfloor>\<rparr>"
  using assms by (simp add: hsv2rgb_def achromatic_def bind_def to_RGBColor_unit)

subsection \<open>The chromatic branch\<close>

lemma sector_real_range:
  assumes "0 \<le> h" "h \<le> 360"
  shows "0 \<le> sector_real h" and "sector_real h \<le> 6"
proof -
  have q: "0 \<le> h / 60" "h / 60 \<le> 6" using assms by simp_all
  show "0 \<le> sector_real h" "sector_real h \<le> 6"
    using fl_nonneg(2,3) [OF q is_double_numerals(1)] by (simp_all add: sector_real_def)
qed

lemma sector_hue_Fin:
  assumes "hue hsv = Fin h" "0 \<le> h" "h \<le> 360"
  shows "sector_hue hsv = Fin (sector_real h)"
proof (cases "h = 360")
  case True
  then show ?thesis using assms by (simp add: sector_hue_def sector_real_def degree_in_range)
next
  case False
  have "d_div (Fin h) (Fin 60) = Fin (rnd (h / 60))"
    using assms by (intro d_div_nonneg [where c = 6]) (simp_all add: is_double_numerals)
  then show ?thesis
    using False assms sector_real_range [OF assms(2,3)]
    by (simp add: sector_hue_def sector_real_def degree_in_range)
qed

lemma sector_index_Fin:
  assumes "hue hsv = Fin h" "0 \<le> h" "h \<le> 360"
  shows "sector_index hsv = Inr \<lfloor>sector_real h\<rfloor>"
proof -
  have r: "0 \<le> sector_real h" "sector_real h \<le> 6"
    using sector_real_range [OF assms(2,3)] by simp_all
  then have "0 \<le> \<lfloor>sector_real h\<rfloor>" "\<lfloor>sector_real h\<rfloor> \<le> 6" by (simp_all add: floor_le_iff)
  then show ?thesis
    using r(1) by (simp add: sector_index_def sector_hue_Fin [OF assms] trunc_int_nonneg)
qed

lemma fraction_Fin:
  assumes "0 \<le> a"
  shows "\<exists>f. d_sub (Fin a) (int2d \<lfloor>a\<rfloor>) = Fin f \<and> 0 \<le> f \<and> f \<le> 1"
proof -
  have d: "of_int \<lfloor>a\<rfloor> \<le> a" "a - of_int \<lfloor>a\<rfloor> \<le> 1" by linarith+
  have "d_sub (Fin a) (Fin (of_int \<lfloor>a\<rfloor>)) = Fin (rnd (a - of_int \<lfloor>a\<rfloor>))"
    using d by (intro d_sub_nonneg [where c = 1]) (simp_all add: is_double_examples)
  moreover have "0 \<le> rnd (a - of_int \<lfloor>a\<rfloor>)" "rnd (a - of_int \<lfloor>a\<rfloor>) \<le> 1"
    using fl_nonneg(2,3) [of "a - of_int \<lfloor>a\<rfloor>" 1] d by (simp_all add: is_double_examples)
  ultimately show ?thesis by (simp add: int2d_def)
qed

lemma unit_one_minus_product:
  assumes "0 \<le> v" "v \<le> 1" "0 \<le> a" "a \<le> 1" "0 \<le> b" "b \<le> 1"
  shows "\<exists>c. d_mul (Fin v) (d_sub (Fin 1) (d_mul (Fin a) (Fin b))) = Fin c \<and> 0 \<le> c \<and> c \<le> 1"
  using unit_mul [OF assms(3-6)] unit_compl [of "rnd (a * b)"]
    unit_mul [OF assms(1,2), of "rnd (1 - rnd (a * b))"] by simp

lemma chromatic_Fin:
  assumes "hue hsv = Fin h" and "0 \<le> h" and "h \<le> 360"
    and "saturation hsv = Fin s" and "0 \<le> s" "s \<le> 1"
    and "value hsv = Fin v" and "0 \<le> v" "v \<le> 1"
  shows "\<exists>p q t. chromatic hsv =
      Inr (switch_body (switch_on \<lfloor>sector_real h\<rfloor>) (Fin v) (Fin p) (Fin q) (Fin t))
    \<and> 0 \<le> p \<and> p \<le> 1 \<and> 0 \<le> q \<and> q \<le> 1 \<and> 0 \<le> t \<and> t \<le> 1"
proof -
  have r: "0 \<le> sector_real h" using sector_real_range [OF assms(2,3)] by simp
  from fraction_Fin [OF r] obtain f
    where f: "d_sub (Fin (sector_real h)) (int2d \<lfloor>sector_real h\<rfloor>) = Fin f" "0 \<le> f" "f \<le> 1"
    by blast
  have p: "d_mul (Fin v) (d_sub (Fin 1) (Fin s)) = Fin (rnd (v * rnd (1 - s)))"
      "0 \<le> rnd (v * rnd (1 - s))" "rnd (v * rnd (1 - s)) \<le> 1"
    using unit_compl [OF assms(5,6)] unit_mul [OF assms(8,9), of "rnd (1 - s)"] by simp_all
  from unit_one_minus_product [OF assms(8,9) assms(5,6) f(2,3)] obtain q
    where q: "d_mul (Fin v) (d_sub (Fin 1) (d_mul (Fin s) (Fin f))) = Fin q" "0 \<le> q" "q \<le> 1"
    by blast
  have g: "d_sub (Fin 1) (Fin f) = Fin (rnd (1 - f))" "0 \<le> rnd (1 - f)" "rnd (1 - f) \<le> 1"
    using unit_compl [OF f(2,3)] by simp_all
  from unit_one_minus_product [OF assms(8,9) assms(5,6) g(2,3)] obtain t
    where t: "d_mul (Fin v) (d_sub (Fin 1) (d_mul (Fin s) (Fin (rnd (1 - f))))) = Fin t"
      "0 \<le> t" "t \<le> 1"
    by blast
  have "chromatic hsv =
      Inr (switch_body (switch_on \<lfloor>sector_real h\<rfloor>) (Fin v) (Fin (rnd (v * rnd (1 - s))))
        (Fin q) (Fin t))"
    by (simp add: chromatic_def bind_def sector_index_Fin [OF assms(1-3)]
        sector_hue_Fin [OF assms(1-3)] assms(4,7) f(1) p(1) q(1) g(1) t(1))
  then show ?thesis using p(2,3) q(2,3) t(2,3) by blast
qed

lemma to_RGBColor_switch_body:
  assumes "0 \<le> v" "v \<le> 1" "0 \<le> p" "p \<le> 1" "0 \<le> q" "q \<le> 1" "0 \<le> t" "t \<le> 1"
  shows "\<exists>c. to_RGBColor (switch_body l (Fin v) (Fin p) (Fin q) (Fin t)) = Inr c"
  using assms by (cases l) (simp_all add: to_RGBColor_unit)

text \<open>
  On a colour whose three components are finite and inside their domains the conversion is
  defined: no channel leaves \<open>[0, 1]\<close>, rounded as it is after every operation, so every
  conversion to \<^verbatim>\<open>unsigned char\<close> fits.
\<close>

lemma hsv2rgb_defined:
  assumes "hue hsv = Fin h" "0 \<le> h" "h \<le> 360"
    and "saturation hsv = Fin s" "0 \<le> s" "s \<le> 1"
    and "value hsv = Fin v" "0 \<le> v" "v \<le> 1"
  shows "\<exists>c. hsv2rgb hsv = Inr c"
proof (cases "s = 0")
  case True
  then show ?thesis using achromatic_result [of hsv v] assms by simp
next
  case False
  from chromatic_Fin [OF assms] obtain p q t where c: "chromatic hsv =
      Inr (switch_body (switch_on \<lfloor>sector_real h\<rfloor>) (Fin v) (Fin p) (Fin q) (Fin t))"
    and b: "0 \<le> p" "p \<le> 1" "0 \<le> q" "q \<le> 1" "0 \<le> t" "t \<le> 1"
    by blast
  from to_RGBColor_switch_body [OF assms(8,9) b]
  obtain col where "to_RGBColor (switch_body (switch_on \<lfloor>sector_real h\<rfloor>) (Fin v) (Fin p)
      (Fin q) (Fin t)) = Inr col" by blast
  then show ?thesis using False by (simp add: hsv2rgb_def assms(4) bind_def c)
qed

subsection \<open>The last \<^verbatim>\<open>double\<close> below 360\<close>

text \<open>
  A \<^verbatim>\<open>double\<close> below 360 is at most \<open>360 - 2\<^sup>-\<^sup>4\<^sup>4\<close>, the \<^verbatim>\<open>double\<close> before 360, so its
  sixtieth is at most \<open>6 - 2\<^sup>-\<^sup>5\<^sup>0\<close>, which is a \<^verbatim>\<open>double\<close>: the quotient is not rounded up
  to 6.
\<close>

lemma grid_below_360:
  assumes "real_of_int n * (1 / 2 ^ 44) < 360"
  shows "real_of_int n * (1 / 2 ^ 44) \<le> 360 - 1 / 2 ^ 44"
proof -
  have "real_of_int n < 6333186975989760" using assms by (simp add: field_simps)
  then have "n < 6333186975989760" by linarith
  then have "n \<le> 6333186975989759" by simp
  then have "real_of_int n \<le> 6333186975989759" by linarith
  then show ?thesis by (simp add: field_simps)
qed

lemma below_360:
  assumes "is_double h" and "0 \<le> h" and "h < 360"
  shows "h / 60 \<le> 6 - 1 / 2 ^ 50"
proof (cases "h < 256")
  case True
  then have "h / 60 \<le> 5" by simp
  moreover have "(5::real) \<le> 6 - 1 / 2 ^ 50" by simp
  ultimately show ?thesis by linarith
next
  case False
  then have h: "256 \<le> h" by simp
  have b: "binade h = 8"
    using h assms(3) by (intro binade_eq) simp_all
  have q: "quantum h = 1 / 2 ^ 44"
    unfolding quantum_def b by (simp add: power_int_minus field_simps)
  from is_double_quantum [of h] assms(1) h obtain n :: int where n: "h = of_int n * quantum h"
    by auto
  have "h \<le> 360 - 1 / 2 ^ 44"
    using grid_below_360 [of n] assms(3) n unfolding q by simp
  then have "h / 60 \<le> (360 - 1 / 2 ^ 44) / 60" by (simp only: divide_right_mono zero_le_numeral)
  also have "\<dots> \<le> 6 - 1 / 2 ^ 50" by simp
  finally show ?thesis .
qed

lemma sector_real_less_6:
  assumes "is_double h" and "0 \<le> h" and "h \<le> 360"
  shows "sector_real h < 6"
proof (cases "h = 360")
  case True then show ?thesis by (simp add: sector_real_def)
next
  case False
  then have "h < 360" using assms(3) by simp
  from below_360 [OF assms(1,2) this] have le: "h / 60 \<le> 6 - 1 / 2 ^ 50" .
  have "rnd (h / 60) \<le> 6 - 1 / 2 ^ 50"
    using fl_nonneg(3) [OF _ le is_double_examples(4)] assms(2) by simp
  then show ?thesis using False by (simp add: sector_real_def)
qed

lemma rnd_765: "rnd (765 / 8) = 765 / 8"
  using is_double_dyadic [of 765 "- 3"] by (intro rnd_id) (simp add: power_int_minus)

subsection \<open>Saturation zero\<close>

text \<open>
  Claim C6, as the program has it. With saturation 0 and a value \<open>v\<close> in \<open>[0, 1]\<close>, whatever
  the hue, \<^const>\<open>hsv2rgb\<close> returns the gray whose three channels are the \<^verbatim>\<open>double\<close>
  product \<^verbatim>\<open>v * 255.0\<close>, that is \<open>rnd (v * 255)\<close>, with the fractional part dropped: the
  conversion to \<^verbatim>\<open>unsigned char\<close> truncates, it does not round to the nearest integer.
\<close>

theorem hsv2rgb_saturation_zero_truncates:
  assumes "0 \<le> v" and "v \<le> 1"
  shows "hsv2rgb (HSVColor_init h (Fin 0) (Fin v)) =
    Inr \<lparr>red = word_of_int \<lfloor>rnd (v * 255)\<rfloor>, green = word_of_int \<lfloor>rnd (v * 255)\<rfloor>,
         blue = word_of_int \<lfloor>rnd (v * 255)\<rfloor>\<rparr>"
proof (rule achromatic_result)
  show "saturation (HSVColor_init h (Fin 0) (Fin v)) = Fin 0"
    by (simp add: saturation_init)
  show "value (HSVColor_init h (Fin 0) (Fin v)) = Fin v"
    using assms by (simp add: value_init)
qed (use assms in simp_all)

theorem hsv2rgb_saturation_zero_truncates_witness:
  "(0::real) \<le> 3 / 8 \<and> (3::real) / 8 \<le> 1 \<and>
   hsv2rgb (HSVColor_init (Fin 120) (Fin 0) (Fin (3 / 8))) =
     Inr \<lparr>red = 95, green = 95, blue = 95\<rparr>"
  using hsv2rgb_saturation_zero_truncates [of "3 / 8" "Fin 120"] by (simp add: rnd_765)

text \<open>
  Claim C6 as the specification words it asks for \<open>round (v * 255)\<close>. At \<open>v = 3/8\<close> the
  product is \<open>95.625\<close>, a \<^verbatim>\<open>double\<close>: the program returns 95 in each channel, rounding
  gives 96.
\<close>

theorem hsv2rgb_saturation_zero_not_rounded:
  "hsv2rgb (HSVColor_init (Fin 0) (Fin 0) (Fin (3 / 8))) = Inr \<lparr>red = 95, green = 95, blue = 95\<rparr>
   \<and> hsv2rgb (HSVColor_init (Fin 0) (Fin 0) (Fin (3 / 8))) \<noteq>
       Inr \<lparr>red = word_of_int (round (3 / 8 * 255 :: real)),
            green = word_of_int (round (3 / 8 * 255 :: real)),
            blue = word_of_int (round (3 / 8 * 255 :: real))\<rparr>"
proof -
  have "hsv2rgb (HSVColor_init (Fin 0) (Fin 0) (Fin (3 / 8))) =
      Inr \<lparr>red = 95, green = 95, blue = 95\<rparr>"
    using achromatic_result [of "HSVColor_init (Fin 0) (Fin 0) (Fin (3 / 8))" "3 / 8"]
    by (simp add: saturation_init value_init rnd_765)
  moreover have "round (3 / 8 * 255 :: real) = 96"
    by (simp add: round_def)
  ultimately show ?thesis by simp
qed

lemma d_div_zero: "0 < b \<Longrightarrow> d_div (Fin 0) (Fin b) = Fin 0"
  by (simp add: d_div_def signed_zero_def)

subsection \<open>Hue 360 and hue 0\<close>

text \<open>
  Claim C7. For a saturation and a value in \<open>[0, 1]\<close>, \<^const>\<open>hsv2rgb\<close> returns the same
  colour at hue 360 and at hue 0, and it returns one: the colour of sector 0 with fraction 0.
\<close>

theorem hsv2rgb_hue_360_eq_0:
  assumes "0 \<le> s" and "s \<le> 1" and "0 \<le> v" and "v \<le> 1"
  shows "hsv2rgb (HSVColor_init (Fin 360) (Fin s) (Fin v)) =
           hsv2rgb (HSVColor_init (Fin 0) (Fin s) (Fin v))
         \<and> (\<exists>c. hsv2rgb (HSVColor_init (Fin 0) (Fin s) (Fin v)) = Inr c)"
proof
  show "hsv2rgb (HSVColor_init (Fin 360) (Fin s) (Fin v)) =
        hsv2rgb (HSVColor_init (Fin 0) (Fin s) (Fin v))"
    by (simp add: hsv2rgb_def HSVColor_init_def chromatic_def achromatic_def
        sector_index_def sector_hue_def degree_def clamped_Fin d_div_zero)
  show "\<exists>c. hsv2rgb (HSVColor_init (Fin 0) (Fin s) (Fin v)) = Inr c"
    using assms by (intro hsv2rgb_defined [where h = 0 and s = s and v = v])
      (simp_all add: hue_init saturation_init value_init)
qed

theorem hsv2rgb_hue_360_eq_0_witness:
  "(0::real) \<le> 1 / 2 \<and> (1::real) / 2 \<le> 1 \<and> (0::real) \<le> 1 \<and> (1::real) \<le> 1 \<and>
   hsv2rgb (HSVColor_init (Fin 360) (Fin (1 / 2)) (Fin 1)) =
     hsv2rgb (HSVColor_init (Fin 0) (Fin (1 / 2)) (Fin 1))
   \<and> (\<exists>c. hsv2rgb (HSVColor_init (Fin 0) (Fin (1 / 2)) (Fin 1)) = Inr c)"
  using hsv2rgb_hue_360_eq_0 [of "1 / 2" 1] by simp

subsection \<open>The sector index\<close>

text \<open>
  Claim C10. For a hue in \<open>[0, 360]\<close>, a \<^verbatim>\<open>double\<close>, and a saturation above 0,
  \<^const>\<open>hsv2rgb\<close> runs its chromatic branch, the sector index it computes there is one of
  0, 1, 2, 3, 4, 5, and the \<^verbatim>\<open>switch\<close> reaches its \<^verbatim>\<open>default\<close> label exactly when the
  index is 5.
\<close>

theorem sector_index_range:
  assumes "is_double h" and "0 \<le> h" and "h \<le> 360" and "0 < s"
  shows "hsv2rgb (HSVColor_init (Fin h) (Fin s) v) =
           bind (chromatic (HSVColor_init (Fin h) (Fin s) v)) to_RGBColor
         \<and> (\<exists>i. sector_index (HSVColor_init (Fin h) (Fin s) v) = Inr i
               \<and> i \<in> {0, 1, 2, 3, 4, 5}
               \<and> (switch_on i = Default \<longleftrightarrow> i = 5))"
proof
  let ?hsv = "HSVColor_init (Fin h) (Fin s) v"
  let ?i = "\<lfloor>sector_real h\<rfloor>"
  have "saturation ?hsv = Fin (if 1 < s then 1 else s)"
    using assms(4) by (simp add: HSVColor_init_def norm_value_def clamped_Fin)
  then have "\<not> d_eq (saturation ?hsv) (Fin 0)"
    using assms(4) by simp
  then show "hsv2rgb ?hsv = bind (chromatic ?hsv) to_RGBColor"
    by (simp add: hsv2rgb_def)
  have "0 \<le> sector_real h" "sector_real h < 6"
    using sector_real_range(1) [OF assms(2,3)] sector_real_less_6 [OF assms(1-3)] by simp_all
  then have bounds: "0 \<le> ?i" "?i < 6" by (simp_all add: floor_less_iff)
  then have "?i = 0 \<or> ?i = 1 \<or> ?i = 2 \<or> ?i = 3 \<or> ?i = 4 \<or> ?i = 5" by arith
  then have range: "?i \<in> {0, 1, 2, 3, 4, 5}" by blast
  have "sector_index ?hsv = Inr ?i"
    using assms by (intro sector_index_Fin) (simp_all add: hue_init)
  moreover have "switch_on ?i = Default \<longleftrightarrow> ?i = 5"
    using bounds unfolding switch_on_def by (simp; arith)
  ultimately show "\<exists>i. sector_index ?hsv = Inr i \<and> i \<in> {0, 1, 2, 3, 4, 5}
      \<and> (switch_on i = Default \<longleftrightarrow> i = 5)"
    using range by blast
qed

lemma is_double_330: "is_double 330"
  using is_double_of_int [of 330] by simp

theorem sector_index_range_witness:
  "is_double 330 \<and> (0::real) \<le> 330 \<and> (330::real) \<le> 360 \<and> (0::real) < 1 \<and>
   hsv2rgb (HSVColor_init (Fin 330) (Fin 1) (Fin 1)) =
     bind (chromatic (HSVColor_init (Fin 330) (Fin 1) (Fin 1))) to_RGBColor
   \<and> (\<exists>i. sector_index (HSVColor_init (Fin 330) (Fin 1) (Fin 1)) = Inr i
         \<and> i \<in> {0, 1, 2, 3, 4, 5}
         \<and> (switch_on i = Default \<longleftrightarrow> i = 5))"
  using sector_index_range [of 330 1 "Fin 1"] is_double_330 by simp

text \<open>
  The channel is the truncation of the rounded product, not of the exact one. At the
  \<^verbatim>\<open>double\<close> nearest to 0.6 the exact product is \<open>153 - 51 / 2\<^sup>5\<^sup>3\<close>, which the
  multiplication rounds to 153: the channel is 153, where the floor of the exact product
  is 152.
\<close>

lemma rnd_product_153: "rnd (5404319552844595 / 2 ^ 53 * 255) = 153"
proof -
  let ?x = "5404319552844595 / 2 ^ 53 * 255 :: real"
  have b: "binade ?x = 7" by (intro binade_eq) simp_all
  have q: "quantum ?x = 1 / 2 ^ 45"
    unfolding quantum_def b by (simp add: power_int_minus field_simps)
  have d: "?x / (1 / 2 ^ 45) = 1378101485975371725 / 256" by simp
  have r: "round_even (1378101485975371725 / 256) = 5383208929591296"
    unfolding round_even_def by simp
  show ?thesis unfolding rnd_def q d r by simp
qed

lemma hsv2rgb_gray_153:
  "hsv2rgb (HSVColor_init (Fin 0) (Fin 0) (Fin (5404319552844595 / 2 ^ 53))) =
     Inr \<lparr>red = 153, green = 153, blue = 153\<rparr>
   \<and> \<lfloor>5404319552844595 / 2 ^ 53 * 255 :: real\<rfloor> = 152"
proof
  have r: "rnd (1378101485975371725 / 9007199254740992) = 153"
    using rnd_product_153 by simp
  show "hsv2rgb (HSVColor_init (Fin 0) (Fin 0) (Fin (5404319552844595 / 2 ^ 53))) =
     Inr \<lparr>red = 153, green = 153, blue = 153\<rparr>"
    using achromatic_result [of "HSVColor_init (Fin 0) (Fin 0) (Fin (5404319552844595 / 2 ^ 53))"
        "5404319552844595 / 2 ^ 53"]
    by (simp add: saturation_init value_init r)
  show "\<lfloor>5404319552844595 / 2 ^ 53 * 255 :: real\<rfloor> = 152" by simp
qed

section \<open>Properties of the sampler\<close>

lemma d_abs_isnan: "isnan (d_abs v) = isnan v"
  by (cases v) simp_all

lemma d_abs_isinf: "isinf (d_abs v) = isinf v"
  by (cases v) simp_all

lemma norm_value_one: "norm_value (Fin 1) = Fin 1"
  by (simp add: norm_value_def clamped_Fin)

lemma norm_value_NaN: "norm_value NaN = NaN"
  by (simp add: norm_value_def clamped_def d_lt_def)

lemma gridlines_finite: "\<not> isnan (gridlines m f x y) \<and> \<not> isinf (gridlines m f x y)"
  by (simp add: gridlines_def Let_def d_abs_isnan d_abs_isinf)

lemma M_PI_pos: "0 < M_PI"
  by (simp add: M_PI_def)

lemma d_mul_M_PI_nonfinite: "isnan a \<or> isinf a \<Longrightarrow> d_sin m (d_mul a (Fin M_PI)) = NaN"
  using M_PI_pos by (cases a) (simp_all add: d_mul_def signed_inf_def)

lemma d_mul_NaN: "d_mul NaN b = NaN" "d_mul a NaN = NaN"
  by (simp_all add: d_mul_def)

subsection \<open>The guard of \<^verbatim>\<open>gridlines\<close>\<close>

text \<open>
  The local \<^verbatim>\<open>value\<close> of \<^verbatim>\<open>gridlines\<close> is NaN as soon as a part of the function's output
  is NaN or infinite: the sine of that part is NaN. The guard then returns 1.0, which the
  clamp leaves alone.
\<close>

lemma gridlines_value_nonfinite_output:
  assumes "f (z m x y) = (a, b)" and "isnan a \<or> isinf a \<or> isnan b \<or> isinf b"
  shows "gridlines_value m f x y = NaN"
proof (cases "isnan a \<or> isinf a")
  case True
  then show ?thesis
    by (simp add: gridlines_value_def real_f_def assms(1) d_mul_M_PI_nonfinite d_mul_NaN)
next
  case False
  then have "isnan b \<or> isinf b" using assms(2) by simp
  then show ?thesis
    by (simp add: gridlines_value_def imaginary_f_def assms(1) d_mul_M_PI_nonfinite d_mul_NaN)
qed

lemma gridlines_guard:
  assumes "isnan (gridlines_value m f x y) \<or> isinf (gridlines_value m f x y)"
  shows "gridlines m f x y = Fin 1" and "value (color_hsv m f x y) = Fin 1"
proof -
  show g: "gridlines m f x y = Fin 1"
    using assms by (simp add: gridlines_def Let_def d_abs_isnan d_abs_isinf)
  show "value (color_hsv m f x y) = Fin 1"
    by (simp add: color_hsv_def HSVColor_init_def g norm_value_one)
qed

lemma magnitude_shading_nonfinite_output:
  assumes "f (z m x y) = (a, b)" and "isnan a \<or> isinf a \<or> isnan b \<or> isinf b"
  shows "magnitude_shading m f x y = NaN"
proof (cases "isinf a \<or> isinf b")
  case True
  then have "c_abs m (a, b) = PInf" by simp
  then show ?thesis
    by (simp add: magnitude_shading_def assms(1) d_sub_def d_add_def d_mul_def)
next
  case False
  then have "c_abs m (a, b) = NaN" using assms(2) by auto
  then show ?thesis
    by (simp add: magnitude_shading_def assms(1) d_sub_def d_add_def d_mul_def)
qed

lemma d2uchar_cases: "d2uchar d = Inl FloatToIntegral \<or> (\<exists>w. d2uchar d = Inr w)"
  by (cases d) simp_all

lemma d2int_cases: "d2int d = Inl FloatToIntegral \<or> (\<exists>i. d2int d = Inr i)"
  by (cases d) simp_all

lemma to_RGBColor_NaN:
  assumes "isnan a \<or> isnan b \<or> isnan c"
  shows "to_RGBColor (a, b, c) = Inl FloatToIntegral"
proof -
  have n: "\<And>u. isnan u \<Longrightarrow> d2uchar (d_mul u (Fin 255)) = Inl FloatToIntegral"
    by (simp add: d_mul_def)
  show ?thesis
    using assms d2uchar_cases [of "d_mul a (Fin 255)"] d2uchar_cases [of "d_mul b (Fin 255)"]
      n [of a] n [of b] n [of c]
    by (auto simp add: to_RGBColor_def bind_def)
qed

lemma to_RGBColor_switch_body_NaN:
  "to_RGBColor (switch_body l v NaN NaN NaN) = Inl FloatToIntegral"
  by (cases l) (simp_all add: to_RGBColor_NaN)

subsection \<open>A sample whose output is not finite\<close>

text \<open>
  Only \<^verbatim>\<open>gridlines\<close> has a guard. Where a part of the output is infinite, the magnitude is
  infinite and \<^const>\<open>magnitude_shading\<close> subtracts infinity from infinity; where a part is
  NaN and none is infinite, the magnitude is NaN. Either way the saturation is NaN, which the
  clamp hands through and which is not equal to 0: whatever the hue and the value,
  \<^verbatim>\<open>p\<close>, \<^verbatim>\<open>q\<close> and \<^verbatim>\<open>t\<close> are NaN, every label of the \<^verbatim>\<open>switch\<close> assigns one of them
  to a channel, and \<^const>\<open>hsv2rgb\<close> converts NaN to \<^verbatim>\<open>unsigned char\<close>.
\<close>

lemma hsv2rgb_NaN_saturation:
  assumes "saturation hsv = NaN"
  shows "hsv2rgb hsv = Inl FloatToIntegral"
proof -
  have s: "d_sub (Fin 1) NaN = NaN" by (simp add: d_sub_def d_add_def)
  have "chromatic hsv = Inl FloatToIntegral
      \<or> (\<exists>l. chromatic hsv = Inr (switch_body l (value hsv) NaN NaN NaN))"
    using d2int_cases [of "d_trunc (sector_hue hsv)"]
    by (auto simp add: chromatic_def sector_index_def bind_def assms s d_mul_NaN)
  then show ?thesis
    by (auto simp add: hsv2rgb_def assms d_eq_def bind_def to_RGBColor_switch_body_NaN)
qed

lemma color_nonfinite_output:
  assumes "f (z m x y) = (a, b)" and "isnan a \<or> isinf a \<or> isnan b \<or> isinf b"
  shows "color m f x y = Inl FloatToIntegral"
proof -
  have "magnitude_shading m f x y = NaN"
    using assms by (rule magnitude_shading_nonfinite_output [of f m x y a b])
  then have "saturation (color_hsv m f x y) = NaN"
    by (simp add: color_hsv_def HSVColor_init_def norm_value_NaN)
  then show ?thesis unfolding color_def by (rule hsv2rgb_NaN_saturation)
qed

lemma paint_complex_single_undefined:
  assumes "\<And>xf yf. colorizer xf yf = Inl e"
  shows "paint_complex (RGBCanvas_init \<lparr>width = 1, height = 1\<rparr>) xRange yRange colorizer = Inl e"
  by (simp add: paint_complex_def RGBCanvas_init_def loop_values_def bind_def assms)

text \<open>
  Claim C1 has the substitution of 1.0 keep a degenerate sample from aborting the rendering.
  Take a function whose output at the sample is \<open>\<infinity> + NaN i\<close>, as a division by the complex
  zero gives. The gridlines expression is NaN, \<^const>\<open>gridlines\<close> returns 1.0 and 1.0 is the
  value component, as the claim says. But the saturation of the same sample is NaN, the
  behaviour of \<^const>\<open>color\<close> there is undefined, and so is that of the rendering of a canvas
  of one pixel, whatever the library, the plane point and the ranges.
\<close>

theorem degenerate_sample_undefined:
  "gridlines_value m (\<lambda>c. (PInf, NaN)) x y = NaN
   \<and> gridlines m (\<lambda>c. (PInf, NaN)) x y = Fin 1
   \<and> value (color_hsv m (\<lambda>c. (PInf, NaN)) x y) = Fin 1
   \<and> saturation (color_hsv m (\<lambda>c. (PInf, NaN)) x y) = NaN
   \<and> color m (\<lambda>c. (PInf, NaN)) x y = Inl FloatToIntegral
   \<and> paint_complex (RGBCanvas_init \<lparr>width = 1, height = 1\<rparr>) xRange yRange
       (color m (\<lambda>c. (PInf, NaN))) = Inl FloatToIntegral"
proof -
  let ?f = "\<lambda>c :: dcomplex. (PInf, NaN)"
  have v: "gridlines_value m ?f x y = NaN"
    by (rule gridlines_value_nonfinite_output [where a = PInf and b = NaN]) simp_all
  have s: "magnitude_shading m ?f x y = NaN"
    by (rule magnitude_shading_nonfinite_output [where a = PInf and b = NaN]) simp_all
  have c: "\<And>xf yf. color m ?f xf yf = Inl FloatToIntegral"
    by (rule color_nonfinite_output [where a = PInf and b = NaN]) simp_all
  show ?thesis
    using v s c gridlines_guard [of m ?f x y] paint_complex_single_undefined [of "color m ?f", OF c]
    by (simp add: color_hsv_def HSVColor_init_def norm_value_NaN)
qed

subsection \<open>The saturation\<close>

lemma sawtooth:
  fixes a :: real
  shows "\<exists>s. d_add (Fin (1 / 2)) (d_mul (Fin (1 / 2)) (d_sub (Fin a) (d_floor (Fin a)))) = Fin s
     \<and> s = rnd (1 / 2 + rnd (1 / 2 * rnd (a - of_int \<lfloor>a\<rfloor>))) \<and> 1 / 2 \<le> s \<and> s \<le> 1"
proof -
  define d where "d = a - of_int \<lfloor>a\<rfloor>"
  have d: "0 \<le> d" "d \<le> 1" unfolding d_def by linarith+
  have fl: "of_int \<lfloor>a\<rfloor> \<le> a" by simp
  have s1: "d_sub (Fin a) (d_floor (Fin a)) = Fin (rnd d)"
    using d_sub_nonneg [OF fl, of 1] d(2) unfolding d_def by (simp add: is_double_examples)
  have u: "0 \<le> rnd d" "rnd d \<le> 1"
    using fl_nonneg(2,3) [OF d is_double_examples(1)] by simp_all
  have h: "0 \<le> 1 / 2 * rnd d" "1 / 2 * rnd d \<le> 1 / 2" using u by simp_all
  have s2: "d_mul (Fin (1 / 2)) (Fin (rnd d)) = Fin (rnd (1 / 2 * rnd d))"
    using u(1) h(2) by (intro d_mul_nonneg [where c = "1 / 2"]) (simp_all add: is_double_examples)
  have t: "0 \<le> rnd (1 / 2 * rnd d)" "rnd (1 / 2 * rnd d) \<le> 1 / 2"
    using fl_nonneg(2,3) [OF h is_double_examples(3)] by simp_all
  have s3: "d_add (Fin (1 / 2)) (Fin (rnd (1 / 2 * rnd d))) = Fin (rnd (1 / 2 + rnd (1 / 2 * rnd d)))"
    using t by (intro d_add_nonneg [where c = 1]) (simp_all add: is_double_examples)
  have "1 / 2 \<le> rnd (1 / 2 + rnd (1 / 2 * rnd d))"
    using t(1) by (intro rnd_ge) (simp_all add: is_double_examples)
  moreover have "rnd (1 / 2 + rnd (1 / 2 * rnd d)) \<le> 1"
    using t by (intro rnd_le) (simp_all add: is_double_examples)
  moreover have "d_add (Fin (1 / 2)) (d_mul (Fin (1 / 2)) (d_sub (Fin a) (d_floor (Fin a)))) =
      Fin (rnd (1 / 2 + rnd (1 / 2 * rnd d)))"
    by (simp only: s1 s2 s3)
  ultimately show ?thesis unfolding d_def by blast
qed

text \<open>
  Claim C9. At a sampled point where the magnitude \<open>a\<close> of the function's output is finite,
  the saturation that \<^const>\<open>magnitude_shading\<close> computes is \<open>0.5 + 0.5 \<cdot> (a - \<lfloor>a\<rfloor>)\<close>, each of
  the three operations rounded, and lies in \<open>[0.5, 1]\<close>; it is the saturation of the colour
  handed to \<^const>\<open>hsv2rgb\<close>, it is not 0, and \<^const>\<open>hsv2rgb\<close> runs its chromatic branch.
\<close>

theorem magnitude_shading_saturation:
  assumes "c_abs m (f (z m x y)) = Fin a"
  shows "\<exists>s. magnitude_shading m f x y = Fin s
           \<and> s = rnd (1 / 2 + rnd (1 / 2 * rnd (a - of_int \<lfloor>a\<rfloor>)))
           \<and> 1 / 2 \<le> s \<and> s \<le> 1
           \<and> saturation (color_hsv m f x y) = Fin s
           \<and> \<not> d_eq (saturation (color_hsv m f x y)) (Fin 0)
           \<and> hsv2rgb (color_hsv m f x y) = bind (chromatic (color_hsv m f x y)) to_RGBColor"
proof -
  from sawtooth [of a] obtain s
    where shading: "magnitude_shading m f x y = Fin s"
      and s: "s = rnd (1 / 2 + rnd (1 / 2 * rnd (a - of_int \<lfloor>a\<rfloor>)))"
      and range: "1 / 2 \<le> s" "s \<le> 1"
    unfolding magnitude_shading_def assms by blast
  have "0 \<le> s" using range(1) by linarith
  then have sat: "saturation (color_hsv m f x y) = Fin s"
    using range(2) unfolding color_hsv_def shading by (rule saturation_init)
  have "s \<noteq> 0" using range(1) by linarith
  then have nonzero: "\<not> d_eq (saturation (color_hsv m f x y)) (Fin 0)"
    unfolding sat by simp
  then have "hsv2rgb (color_hsv m f x y) = bind (chromatic (color_hsv m f x y)) to_RGBColor"
    by (simp add: hsv2rgb_def)
  with range shading s sat nonzero show ?thesis by blast
qed

theorem magnitude_shading_saturation_witness:
  "c_abs rounding_libm ((\<lambda>c. (Fin (3 / 2), Fin 0)) (z rounding_libm (Fin 1) (Fin 1))) = Fin (3 / 2) \<and>
   (\<exists>s. magnitude_shading rounding_libm (\<lambda>c. (Fin (3 / 2), Fin 0)) (Fin 1) (Fin 1) = Fin s
      \<and> s = rnd (1 / 2 + rnd (1 / 2 * rnd (3 / 2 - of_int \<lfloor>3 / 2 :: real\<rfloor>)))
      \<and> 1 / 2 \<le> s \<and> s \<le> 1
      \<and> saturation (color_hsv rounding_libm (\<lambda>c. (Fin (3 / 2), Fin 0)) (Fin 1) (Fin 1)) = Fin s
      \<and> \<not> d_eq (saturation (color_hsv rounding_libm (\<lambda>c. (Fin (3 / 2), Fin 0)) (Fin 1) (Fin 1)))
           (Fin 0)
      \<and> hsv2rgb (color_hsv rounding_libm (\<lambda>c. (Fin (3 / 2), Fin 0)) (Fin 1) (Fin 1)) =
          bind (chromatic (color_hsv rounding_libm (\<lambda>c. (Fin (3 / 2), Fin 0)) (Fin 1) (Fin 1)))
            to_RGBColor)"
  using magnitude_shading_saturation
    [of rounding_libm "\<lambda>c. (Fin (3 / 2), Fin 0)" "Fin 1" "Fin 1" "3 / 2"]
  by simp

subsection \<open>The hue\<close>

lemma is_double_M_PI: "is_double M_PI" "is_double (2 * M_PI)"
proof -
  show "is_double M_PI"
    unfolding M_PI_def using is_double_dyadic [of 884279719003555 "- 48"]
    by (simp add: power_int_minus field_simps)
  show "is_double (2 * M_PI)"
    unfolding M_PI_def using is_double_dyadic [of 884279719003555 "- 47"]
    by (simp add: power_int_minus field_simps)
qed

text \<open>
  The factor \<^verbatim>\<open>180.0 / M_PI\<close> of \<^verbatim>\<open>angle\<close> is the \<^verbatim>\<open>double\<close>
  \<open>1007958012753983 / 2\<^sup>4\<^sup>4\<close>, that is \<open>57.29577951308232\<dots>\<close>.
\<close>

lemma rnd_180_M_PI: "rnd (180 / M_PI) = 1007958012753983 / 2 ^ 44"
proof -
  let ?x = "180 / M_PI"
  have b: "binade ?x = 5" by (intro binade_eq) (simp_all add: M_PI_def)
  have q: "quantum ?x = 1 / 2 ^ 47"
    unfolding quantum_def b by (simp add: power_int_minus field_simps)
  have d: "?x / (1 / 2 ^ 47) = 7130534626283790383418955530240 / 884279719003555"
    by (simp add: M_PI_def)
  have r: "round_even (7130534626283790383418955530240 / 884279719003555) = 8063664102031864"
    unfolding round_even_def by simp
  show ?thesis unfolding rnd_def q d r by simp
qed

lemma angleRadians_minus_one: "angleRadians m (Fin (- 1)) (Fin 0) = Fin (1 / 2)"
proof -
  have a: "d_atan2 m (d_neg (Fin 0)) (d_neg (Fin (- 1))) = NZero"
    by (simp add: d_atan2_def signed_zero_def)
  have s: "d_add (Fin M_PI) NZero = Fin M_PI"
    using fl_id [OF is_double_M_PI(1)] M_PI_pos by (simp add: d_add_def)
  have t: "d_mul (Fin 2) (Fin M_PI) = Fin (2 * M_PI)"
    using fl_id [OF is_double_M_PI(2)] M_PI_pos by (simp add: d_mul_def)
  have q: "d_div (Fin M_PI) (Fin (2 * M_PI)) = Fin (1 / 2)"
    using fl_id [OF is_double_examples(3)] M_PI_pos by (simp add: d_div_def)
  show ?thesis unfolding angleRadians_def a s t q ..
qed

lemma degrees_per_radian: "d_div (Fin 180) (Fin M_PI) = Fin (1007958012753983 / 2 ^ 44)"
proof -
  have "180 / M_PI \<le> 64" by (simp add: M_PI_def)
  then have "d_div (Fin 180) (Fin M_PI) = Fin (rnd (180 / M_PI))"
    using M_PI_pos by (intro d_div_nonneg [where c = 64]) (simp_all add: is_double_examples)
  then show ?thesis by (simp only: rnd_180_M_PI)
qed

lemma angle_minus_one: "angle m (Fin (- 1)) (Fin 0) = Fin (1007958012753983 / 2 ^ 45)"
proof -
  have d: "is_double (1007958012753983 / 2 ^ 45)"
    using is_double_dyadic [of 1007958012753983 "- 45"] by (simp add: power_int_minus field_simps)
  have "d_mul (Fin (1 / 2)) (Fin (1007958012753983 / 2 ^ 44)) = Fin (1007958012753983 / 2 ^ 45)"
    using fl_id [OF d] by (simp add: d_mul_def)
  then show ?thesis
    unfolding angle_def angleRadians_minus_one degrees_per_radian .
qed

text \<open>
  Whenever the library's \<^verbatim>\<open>atan2\<close> returns a finite angle between \<^verbatim>\<open>-M_PI\<close> and
  \<^verbatim>\<open>M_PI\<close>, the fraction of a turn is in \<open>[0, 1]\<close> and what \<^verbatim>\<open>angle\<close> returns is that
  fraction times \<^verbatim>\<open>180.0 / M_PI\<close>: a number between 0 and 57.3, of the 360 degrees of the
  domain of the hue.
\<close>

lemma angle_bounded:
  assumes "d_atan2 m (d_neg b) (d_neg a) = Fin t" and "- M_PI \<le> t" and "t \<le> M_PI"
  shows "\<exists>h. angle m a b = Fin h \<and> 0 \<le> h \<and> h \<le> 1007958012753983 / 2 ^ 44"
proof -
  let ?k = "1007958012753983 / 2 ^ 44 :: real"
  have k: "is_double ?k"
    using is_double_dyadic [of 1007958012753983 "- 44"] by (simp add: power_int_minus field_simps)
  have s: "0 \<le> M_PI + t" "M_PI + t \<le> 2 * M_PI" using assms(2,3) by simp_all
  have u: "d_add (Fin M_PI) (Fin t) = Fin (rnd (M_PI + t))"
    using fl_nonneg(1) [OF s is_double_M_PI(2)] by (simp add: d_add_def rnd_0)
  have ub: "0 \<le> rnd (M_PI + t)" "rnd (M_PI + t) \<le> 2 * M_PI"
    using fl_nonneg(2,3) [OF s is_double_M_PI(2)] by simp_all
  have q: "0 \<le> rnd (M_PI + t) / (2 * M_PI)" "rnd (M_PI + t) / (2 * M_PI) \<le> 1"
    using ub M_PI_pos by simp_all
  have t2: "d_mul (Fin 2) (Fin M_PI) = Fin (2 * M_PI)"
    using fl_id [OF is_double_M_PI(2)] M_PI_pos by (simp add: d_mul_def)
  have v: "d_div (Fin (rnd (M_PI + t))) (Fin (2 * M_PI)) = Fin (rnd (rnd (M_PI + t) / (2 * M_PI)))"
    using ub(1) M_PI_pos q(2) by (intro d_div_nonneg [where c = 1]) (simp_all add: is_double_examples)
  define w where "w = rnd (rnd (M_PI + t) / (2 * M_PI))"
  have wb: "0 \<le> w" "w \<le> 1"
    unfolding w_def using fl_nonneg(2,3) [OF q is_double_examples(1)] by simp_all
  have p: "0 \<le> w * ?k" "w * ?k \<le> ?k" using wb by (simp_all add: mult_left_le_one_le)
  have h: "d_mul (Fin w) (Fin ?k) = Fin (rnd (w * ?k))"
    using wb(1) p(2) k by (intro d_mul_nonneg [where c = ?k]) simp_all
  have hb: "0 \<le> rnd (w * ?k)" "rnd (w * ?k) \<le> ?k"
    using fl_nonneg(2,3) [OF p k] by simp_all
  have "angle m a b = Fin (rnd (w * ?k))"
    unfolding angle_def angleRadians_def assms(1) u t2 v degrees_per_radian
    using h unfolding w_def .
  then show ?thesis using hb by blast
qed

text \<open>
  Claim C2 asks for the fraction times 360 where the hue is in degrees, as it is here. For a
  function whose output at the sample is \<open>-1\<close>, \<^verbatim>\<open>atan2(-0.0, 1.0)\<close> is \<open>-0\<close>, the fraction
  is one half and the claim's hue is \<open>0.5 \<cdot> 360 = 180\<close>; the program hands over one half of
  \<^verbatim>\<open>180.0 / M_PI\<close>, which is \<open>28.64788975654116\<dots>\<close>, whatever the library and the plane
  point.
\<close>

theorem angle_hue_not_degrees:
  "angleRadians m (Fin (- 1)) (Fin 0) = Fin (1 / 2)
   \<and> hue (color_hsv m (\<lambda>c. (Fin (- 1), Fin 0)) x y) = Fin (1007958012753983 / 2 ^ 45)
   \<and> (1007958012753983 / 2 ^ 45 :: real) < 29
   \<and> d_mul (Fin (1 / 2)) (Fin 360) = Fin 180"
proof -
  have "hue (color_hsv m (\<lambda>c. (Fin (- 1), Fin 0)) x y) = Fin (1007958012753983 / 2 ^ 45)"
    unfolding color_hsv_def real_f_def imaginary_f_def fst_conv snd_conv angle_minus_one
    by (rule hue_init) simp_all
  moreover have "d_mul (Fin (1 / 2)) (Fin 360) = Fin 180"
    using fl_id [OF is_double_numerals(6)] by (simp add: d_mul_def)
  ultimately show ?thesis using angleRadians_minus_one [of m] by simp
qed

section \<open>Properties of the canvas\<close>

lemma sint_int_bounds:
  fixes a :: "32 word"
  shows "- (2 ^ 31) \<le> sint a" and "sint a < 2 ^ 31"
  using sint_ge [of a] sint_lt [of a] by simp_all

lemma uint_scast_nonneg:
  fixes a :: "32 word"
  assumes "0 \<le> sint a"
  shows "uint (scast a :: 64 word) = sint a"
proof -
  have "sint a < 2 ^ 31" by (rule sint_int_bounds)
  then have "sint a < 2 ^ 64" by simp
  have "uint (scast a :: 64 word) = uint (word_of_int (sint a) :: 64 word)"
    by (simp only: scast_eq)
  also have "\<dots> = sint a mod 2 ^ LENGTH(64)"
    by (rule uint_word_of_int)
  also have "\<dots> = sint a"
    using assms \<open>sint a < 2 ^ 64\<close> by simp
  finally show ?thesis .
qed

lemma unat_scast_nonneg:
  fixes a :: "32 word"
  assumes "0 \<le> sint a"
  shows "unat (scast a :: 64 word) = nat (sint a)"
  by (simp add: unat_eq_nat_uint uint_scast_nonneg [OF assms])

lemma area_times_3:
  assumes "0 \<le> sint (width sz)" and "0 \<le> sint (height sz)"
  shows "unat (area sz * 3) = nat (sint (width sz) * sint (height sz) * 3)"
proof -
  let ?w = "sint (width sz)" and ?h = "sint (height sz)"
  have w: "?w < 2 ^ 31" and h: "?h < 2 ^ 31" by (rule sint_int_bounds)+
  have "?w * ?h \<le> 2 ^ 31 * 2 ^ 31"
    using assms w h by (intro mult_mono) simp_all
  then have bound: "?w * ?h * 3 < 2 ^ 64" by simp
  have nonneg: "0 \<le> ?w * ?h * 3" using assms by simp
  have "uint (area sz * 3) = (?w * ?h * 3) mod 2 ^ 64"
    by (simp add: area_def uint_word_ariths uint_scast_nonneg [OF assms(1)]
        uint_scast_nonneg [OF assms(2)] mod_mult_left_eq mod_mult_right_eq)
  also have "\<dots> = ?w * ?h * 3" using nonneg bound by simp
  finally show ?thesis by (simp add: unat_eq_nat_uint)
qed

lemma csize_init: "csize (RGBCanvas_init sz) = sz"
  by (simp add: RGBCanvas_init_def)

lemma length_init: "length (pixels (RGBCanvas_init sz)) = unat (area sz * 3)"
  by (simp add: RGBCanvas_init_def fill_def resize_def)

subsection \<open>The constructor\<close>

text \<open>
  Claim C5. For a width and a height above 0, the constructor gives a canvas of this size
  whose buffer has exactly \<open>W * H * 3\<close> bytes, each of them 255. (\<open>W * H * 3\<close> is below
  \<open>2\<^sup>6\<^sup>4\<close>, so the \<^verbatim>\<open>size_t\<close> product does not wrap.)
\<close>

theorem RGBCanvas_init_white:
  assumes "0 < sint (width sz)" and "0 < sint (height sz)"
  shows "length (pixels (RGBCanvas_init sz)) = nat (sint (width sz) * sint (height sz) * 3)
         \<and> (\<forall>i < length (pixels (RGBCanvas_init sz)). pixels (RGBCanvas_init sz) ! i = 255)
         \<and> csize (RGBCanvas_init sz) = sz"
  using assms by (simp add: RGBCanvas_init_def fill_def resize_def area_times_3)

theorem RGBCanvas_init_white_witness:
  "0 < sint (width \<lparr>width = 2, height = 1\<rparr>) \<and> 0 < sint (height \<lparr>width = 2, height = 1\<rparr>)
   \<and> length (pixels (RGBCanvas_init \<lparr>width = 2, height = 1\<rparr>)) = 6
   \<and> pixels (RGBCanvas_init \<lparr>width = 2, height = 1\<rparr>) = [255, 255, 255, 255, 255, 255]
   \<and> csize (RGBCanvas_init \<lparr>width = 2, height = 1\<rparr>) = \<lparr>width = 2, height = 1\<rparr>"
proof -
  let ?c = "RGBCanvas_init \<lparr>width = 2, height = 1\<rparr>"
  have t: "length (pixels ?c) = 6 \<and> (\<forall>i < length (pixels ?c). pixels ?c ! i = 255)
      \<and> csize ?c = \<lparr>width = 2, height = 1\<rparr>"
    using RGBCanvas_init_white [of "\<lparr>width = 2, height = 1\<rparr>"] by simp
  then have "pixels ?c = replicate 6 255"
    by (intro nth_equalityI) simp_all
  then have "pixels ?c = [255, 255, 255, 255, 255, 255]"
    by (simp add: numeral_eq_Suc)
  with t show ?thesis by simp
qed

subsection \<open>Writing outside the canvas\<close>

text \<open>
  Claim C4. For a coordinate outside the canvas (\<open>x < 0\<close>, \<open>x \<ge> W\<close>, \<open>y < 0\<close> or
  \<open>y \<ge> H\<close>), \<^const>\<open>write\<close> returns normally and the canvas it returns is the canvas it was
  given: no byte of the buffer changes.
\<close>

theorem write_out_of_bounds_noop:
  assumes "sint (p_x p) < 0 \<or> sint (width (csize canvas)) \<le> sint (p_x p)
         \<or> sint (p_y p) < 0 \<or> sint (height (csize canvas)) \<le> sint (p_y p)"
  shows "write canvas p col = Inr canvas"
  using assms by (auto simp add: write_def)

theorem write_out_of_bounds_noop_witness:
  "(sint (p_x \<lparr>p_x = 2, p_y = 0\<rparr>) < 0
     \<or> sint (width (csize (RGBCanvas_init \<lparr>width = 2, height = 1\<rparr>)))
         \<le> sint (p_x \<lparr>p_x = 2, p_y = 0\<rparr>)
     \<or> sint (p_y \<lparr>p_x = 2, p_y = 0\<rparr>) < 0
     \<or> sint (height (csize (RGBCanvas_init \<lparr>width = 2, height = 1\<rparr>)))
         \<le> sint (p_y \<lparr>p_x = 2, p_y = 0\<rparr>))
   \<and> write (RGBCanvas_init \<lparr>width = 2, height = 1\<rparr>) \<lparr>p_x = 2, p_y = 0\<rparr>
        \<lparr>red = 1, green = 2, blue = 3\<rparr> = Inr (RGBCanvas_init \<lparr>width = 2, height = 1\<rparr>)"
  using write_out_of_bounds_noop [of "\<lparr>p_x = 2, p_y = 0\<rparr>"
      "RGBCanvas_init \<lparr>width = 2, height = 1\<rparr>" "\<lparr>red = 1, green = 2, blue = 3\<rparr>"]
  by (simp add: csize_init)

subsection \<open>Writing inside the canvas\<close>

lemma int_mul_defined:
  assumes "- (2 ^ 31) \<le> sint a * sint b" and "sint a * sint b < 2 ^ 31"
  shows "\<exists>c. int_mul a b = Inr c \<and> sint c = sint a * sint b"
proof -
  have "sint (a * b) = signed_take_bit 31 (sint a * sint b)"
    by (simp add: sint_word_mult)
  also have "\<dots> = sint a * sint b"
    using assms by (rule signed_take_bit_int_eq_self)
  finally show ?thesis using assms by (simp add: int_mul_def)
qed

lemma int_add_defined:
  assumes "- (2 ^ 31) \<le> sint a + sint b" and "sint a + sint b < 2 ^ 31"
  shows "\<exists>c. int_add a b = Inr c \<and> sint c = sint a + sint b"
proof -
  have "sint (a + b) = signed_take_bit 31 (sint a + sint b)"
    by (simp add: sint_word_add)
  also have "\<dots> = sint a + sint b"
    using assms by (rule signed_take_bit_int_eq_self)
  finally show ?thesis using assms by (simp add: int_add_def)
qed

lemma store_pixel_defined:
  assumes "0 \<le> sint i" and "nat (sint i) + 2 < length ps"
  shows "store_pixel ps i col =
    Inr (ps[nat (sint i) := red col, nat (sint i) + 1 := green col,
            nat (sint i) + 2 := blue col])"
  using assms by (simp add: store_pixel_def unat_scast_nonneg Let_def)

lemma pixel_offset_bounds:
  fixes x y w h :: int
  assumes "0 \<le> x" "x < w" "0 \<le> y" "y < h"
  shows "0 \<le> y * w" and "y * w * 3 + x * 3 + 3 \<le> w * h * 3"
proof -
  show "0 \<le> y * w" using assms by simp
  have "(y + 1) * w \<le> h * w"
    using assms by (intro mult_right_mono) simp_all
  then have "y * w + w \<le> w * h" by (simp add: algebra_simps)
  then show "y * w * 3 + x * 3 + 3 \<le> w * h * 3" using assms by simp
qed

text \<open>
  On a canvas whose buffer has its \<open>W * H * 3\<close> bytes, and this number is an \<^verbatim>\<open>int\<close>, a write
  inside the canvas stores the three channels at the offset \<open>(y * W + x) * 3\<close> and the two
  bytes after it.
\<close>

lemma write_in_bounds:
  assumes x: "0 \<le> sint (p_x p)" "sint (p_x p) < sint (width (csize canvas))"
    and y: "0 \<le> sint (p_y p)" "sint (p_y p) < sint (height (csize canvas))"
    and fit: "sint (width (csize canvas)) * sint (height (csize canvas)) * 3 < 2 ^ 31"
    and len: "length (pixels canvas) =
              nat (sint (width (csize canvas)) * sint (height (csize canvas)) * 3)"
  shows "write canvas p col =
    Inr (canvas\<lparr>pixels := (pixels canvas)
      [nat ((sint (p_y p) * sint (width (csize canvas)) + sint (p_x p)) * 3) := red col,
       nat ((sint (p_y p) * sint (width (csize canvas)) + sint (p_x p)) * 3) + 1 := green col,
       nat ((sint (p_y p) * sint (width (csize canvas)) + sint (p_x p)) * 3) + 2 := blue col]\<rparr>)"
proof -
  let ?x = "sint (p_x p)" and ?y = "sint (p_y p)"
  let ?w = "sint (width (csize canvas))" and ?h = "sint (height (csize canvas))"
  have b: "0 \<le> ?y * ?w" "?y * ?w * 3 + ?x * 3 + 3 \<le> ?w * ?h * 3"
    using pixel_offset_bounds [OF x y] by simp_all
  have three: "sint (3 :: 32 word) = 3" by simp
  obtain a where a: "int_mul (p_y p) (width (csize canvas)) = Inr a" "sint a = ?y * ?w"
    using int_mul_defined [of "p_y p" "width (csize canvas)"] b x fit by force
  obtain b3 where b3: "int_mul a 3 = Inr b3" "sint b3 = ?y * ?w * 3"
    using int_mul_defined [of a 3] a(2) b x fit three by force
  obtain c where c: "int_mul (p_x p) 3 = Inr c" "sint c = ?x * 3"
    using int_mul_defined [of "p_x p" 3] b x fit three by force
  obtain i where i: "int_add b3 c = Inr i" "sint i = ?y * ?w * 3 + ?x * 3"
    using int_add_defined [of b3 c] b3(2) c(2) b x fit by force
  have i': "sint i = (?y * ?w + ?x) * 3" using i(2) by (simp add: algebra_simps)
  have "0 \<le> sint i" using i(2) b(1) x(1) by simp
  moreover have "nat (sint i) + 2 < length (pixels canvas)"
    using i(2) b x(1) len by simp
  ultimately have "store_pixel (pixels canvas) i col =
    Inr ((pixels canvas)[nat (sint i) := red col, nat (sint i) + 1 := green col,
            nat (sint i) + 2 := blue col])"
    by (rule store_pixel_defined)
  then show ?thesis
    using x y a(1) b3(1) c(1) i(1) unfolding i' by (simp add: write_def bind_def)
qed

text \<open>
  Exactly these three bytes change: the canvas returned has the size and the buffer length of
  the given one, the channels at the offset in the order red, green, blue, and every other
  byte as before.
\<close>

lemma write_in_bounds_bytes:
  assumes x: "0 \<le> sint (p_x p)" "sint (p_x p) < sint (width (csize canvas))"
    and y: "0 \<le> sint (p_y p)" "sint (p_y p) < sint (height (csize canvas))"
    and fit: "sint (width (csize canvas)) * sint (height (csize canvas)) * 3 < 2 ^ 31"
    and len: "length (pixels canvas) =
              nat (sint (width (csize canvas)) * sint (height (csize canvas)) * 3)"
    and off: "off = nat ((sint (p_y p) * sint (width (csize canvas)) + sint (p_x p)) * 3)"
  shows "\<exists>cv. write canvas p col = Inr cv
          \<and> csize cv = csize canvas
          \<and> length (pixels cv) = length (pixels canvas)
          \<and> off + 2 < length (pixels canvas)
          \<and> pixels cv ! off = red col
          \<and> pixels cv ! (off + 1) = green col
          \<and> pixels cv ! (off + 2) = blue col
          \<and> (\<forall>i < length (pixels canvas).
                i \<noteq> off \<longrightarrow> i \<noteq> off + 1 \<longrightarrow> i \<noteq> off + 2
                \<longrightarrow> pixels cv ! i = pixels canvas ! i)"
proof -
  let ?x = "sint (p_x p)" and ?y = "sint (p_y p)"
  let ?w = "sint (width (csize canvas))" and ?h = "sint (height (csize canvas))"
  have "?y * ?w * 3 + ?x * 3 + 3 \<le> ?w * ?h * 3"
    using pixel_offset_bounds(2) [OF x y] .
  moreover have "0 \<le> ?y * ?w" using pixel_offset_bounds(1) [OF x y] .
  ultimately have bound: "off + 2 < length (pixels canvas)"
    unfolding off len using x(1) by (simp add: algebra_simps)
  show ?thesis
    using write_in_bounds [OF x y fit len, of col] bound
    unfolding off [symmetric] by simp
qed

text \<open>
  Claim C3 is stated for every canvas. The index \<^verbatim>\<open>p.y * size.width * 3 + p.x * 3\<close> is
  computed in \<^verbatim>\<open>int\<close>, whereas \<^const>\<open>area\<close> converts to \<^verbatim>\<open>size_t\<close> before it multiplies. On
  the canvas of 30000 by 30000 pixels that the constructor builds, with its 2700000000 bytes,
  the write to the first pixel of the last row is inside the canvas and its offset is inside the
  buffer, but \<open>29999 * 30000 * 3\<close> is not an \<^verbatim>\<open>int\<close>: the write has no defined behaviour.
\<close>

theorem write_large_canvas_overflows:
  "write (RGBCanvas_init \<lparr>width = 30000, height = 30000\<rparr>) \<lparr>p_x = 0, p_y = 29999\<rparr>
     \<lparr>red = 0, green = 0, blue = 0\<rparr> = Inl SignedOverflow
   \<and> length (pixels (RGBCanvas_init \<lparr>width = 30000, height = 30000\<rparr>)) = 2700000000
   \<and> (29999 * 30000 + 0) * 3 + 2 < (2700000000 :: nat)"
proof -
  have "int_mul (29999 :: 32 word) 30000 = Inr 899970000"
    by (simp add: int_mul_def)
  moreover have "int_mul (899970000 :: 32 word) 3 = Inl SignedOverflow"
    by (simp add: int_mul_def)
  ultimately have "write (RGBCanvas_init \<lparr>width = 30000, height = 30000\<rparr>)
     \<lparr>p_x = 0, p_y = 29999\<rparr> \<lparr>red = 0, green = 0, blue = 0\<rparr> = Inl SignedOverflow"
    by (simp add: write_def csize_init bind_def)
  moreover have
    "length (pixels (RGBCanvas_init \<lparr>width = 30000, height = 30000\<rparr>)) = 2700000000"
    by (simp add: length_init area_def)
  ultimately show ?thesis by simp
qed

section \<open>Properties of the rasterizer\<close>

text \<open>The values of the loop variable are \<open>0, \<dots>, n - 1\<close>.\<close>

lemma sint_loop_value:
  assumes "int j < 2 ^ 31"
  shows "sint (word_of_nat j :: 32 word) = int j"
proof -
  have "sint (word_of_nat j :: 32 word) = signed_take_bit 31 (int j)"
    using signed_of_nat [of j, where ?'b = 32 and ?'a = int] by simp
  also have "\<dots> = int j"
    using assms by (intro signed_take_bit_int_eq_self) simp_all
  finally show ?thesis .
qed

lemma loop_values_sint: "map sint (loop_values n) = map int [0 ..< nat (sint n)]"
proof -
  have "sint (word_of_nat j :: 32 word) = int j" if "j < nat (sint n)" for j
  proof (rule sint_loop_value)
    have "sint n < 2 ^ 31" by (rule sint_int_bounds)
    then show "int j < 2 ^ 31" using that by linarith
  qed
  then show ?thesis by (simp add: loop_values_def)
qed

subsection \<open>The loops\<close>





subsection \<open>The picture that \<^verbatim>\<open>paint_complex\<close> leaves in the buffer\<close>




subsection \<open>The plane coordinates\<close>





lemma fl_values:
  "fl (3 / 4) = Fin (3 / 4)" "fl (1 / 4) = Fin (1 / 4)" "fl 1 = Fin 1" "fl 2 = Fin 2"
  "fl 4 = Fin 4" "fl (1 / 2) = Fin (1 / 2)" "fl (- (1 / 2)) = Fin (- (1 / 2))"
  "fl (- 1) = Fin (- 1)" "fl (- 2) = Fin (- 2)"
proof -
  have a: "is_double (3 / 4)" "is_double (1 / 4)"
    using is_double_dyadic [of 3 "- 2"] is_double_dyadic [of 1 "- 2"]
    by (simp_all add: power_int_minus)
  show "fl (3 / 4) = Fin (3 / 4)" "fl (1 / 4) = Fin (1 / 4)" "fl 1 = Fin 1" "fl 2 = Fin 2"
    "fl 4 = Fin 4" "fl (1 / 2) = Fin (1 / 2)"
    using fl_id [OF a(1)] fl_id [OF a(2)] fl_id [OF is_double_examples(1)]
      fl_id [OF is_double_numerals(3)] fl_id [OF is_double_numerals(4)]
      fl_id [OF is_double_examples(3)]
    by simp_all
  show "fl (- (1 / 2)) = Fin (- (1 / 2))" "fl (- 1) = Fin (- 1)" "fl (- 2) = Fin (- 2)"
    using fl_id [OF is_double_minus [OF is_double_examples(3)]]
      fl_id [OF is_double_minus [OF is_double_examples(1)]]
      fl_id [OF is_double_minus [OF is_double_numerals(3)]]
    by simp_all
qed



text \<open>
  The earlier snapshot of the program passes the range itself as the extent; the left edge is
  then at half the range.
\<close>

lemma plane_coordinate_single_range:
  assumes "0 < sint n" and "is_double (e / 2)" and "e \<noteq> 0"
  shows "plane_coordinate 0 (int2d (sint n)) (Fin e) = Fin (- (e / 2))"
proof -
  have q: "d_div (int2d 0) (int2d (sint n)) = Fin 0"
    using assms(1) by (simp add: int2d_def d_div_zero del: of_int_sint)
  have s: "d_sub (Fin 0) (Fin (1 / 2)) = Fin (- (1 / 2))"
    using fl_values(7) by (simp add: d_sub_def d_add_def)
  have "d_mul (Fin (- (1 / 2))) (Fin e) = Fin (- (e / 2))"
    using fl_id [OF is_double_minus [OF assms(2)]] assms(3) by (simp add: d_mul_def)
  then show ?thesis unfolding plane_coordinate_def using q s by simp
qed

end
